theory Spec2Isabelle
  imports Main "HOL-Library.Word"
begin

section \<open>The reader factory of the file consumer\<close>

text \<open>
  A shallow embedding of \<^verbatim>\<open>pkg/stanza/fileconsumer/reader_factory.go\<close>: the
  \<^verbatim>\<open>readerFactory\<close>, its \<^verbatim>\<open>readerBuilder\<close> and the three constructors
  \<^verbatim>\<open>newReader\<close>, \<^verbatim>\<open>copy\<close> and \<^verbatim>\<open>unsafeReader\<close>, all of which end in
  \<^verbatim>\<open>readerBuilder.build\<close>.

  Go pointers to mutable objects (fingerprints, attribute maps) are addresses into an
  explicit store, so that sharing between two Readers is visible. Calls that leave the
  package (pipeline, file system, logger) are recorded in a trace, in program order.
  Every error return is an \<open>Inl\<close>; a Go panic is the error \<open>RuntimePanic\<close>.
\<close>

subsection \<open>Values\<close>

type_synonym byte = "8 word"
type_synonym addr = nat

text \<open>Function values and external objects are opaque: a number identifies each.\<close>

type_synonym splitFunc = nat
type_synonym emitFunc = nat
type_synonym encodingT = nat
type_synonym operatorConfig = nat
type_synonym pipelineT = nat

datatype error =
    ExternalError string
  | IOError
  | Wrapped string error
  | RuntimePanic string

text \<open>A Go \<^verbatim>\<open>any\<close> held in an attribute map: the nil interface, a string, or another value.\<close>

datatype any = AnyNil | AnyString string | AnyOther nat

text \<open>
  \<^verbatim>\<open>Reader.processFunc\<close> is either the configured emit function or the method value
  \<^verbatim>\<open>r.consumeHeaderLine\<close>.
\<close>

datatype processFn = EmitFunc emitFunc | ConsumeHeaderLine

datatype event =
    CallPipelineBuild "operatorConfig list"
  | CallPipelineStart pipelineT
  | CallEvalSymlinks string
  | CallAbs string
  | LoggedErrorf string error
  | CallStat string
  | CallFingerprintRead string nat
  | CallEmit

text \<open>
  An open \<^verbatim>\<open>*os.File\<close>: its name, the bytes it holds now, and whether \<^verbatim>\<open>Stat\<close> or
  a positioned read on it fails.
\<close>

record osFile =
  Name :: string
  contents :: "byte list"
  statFails :: bool
  readFails :: bool

record readerConfig =
  fingerprintSize :: nat
  maxLogSize :: int
  emit :: emitFunc
  includeFileName :: bool
  includeFilePath :: bool
  includeFileNameResolved :: bool
  includeFilePathResolved :: bool

record headerSettings =
  hs_splitFunc :: "splitFunc option"
  metadataOperators :: "operatorConfig list"

record readerFactory =
  fac_readerConfig :: readerConfig
  fromBeginning :: bool
  splitterFactory :: "int \<Rightarrow> error + splitFunc"
  encodingConfig :: "error + encodingT"
  fac_headerSettings :: "headerSettings option"

record Reader =
  r_readerConfig :: readerConfig
  Offset :: int
  r_headerSettings :: "headerSettings option"
  HeaderFinalized :: bool
  FileAttributes :: "addr option"
  lineSplitFunc :: "splitFunc option"
  encoding :: "encodingT option"
  splitFunc :: "splitFunc option"
  processFunc :: "processFn option"
  headerPipelineOutput :: bool
  headerPipeline :: "pipelineT option"
  r_file :: "osFile option"
  loggerPath :: "string option"
  Fingerprint :: "addr option"

record readerBuilder =
  factory :: readerFactory
  b_file :: "osFile option"
  fp :: "addr option"
  offset :: int
  b_splitFunc :: "splitFunc option"
  headerFinalized :: bool
  fileAttributes :: "addr option"

text \<open>
  What the packages outside this file answer: the operator pipeline, the operating
  system and \<^verbatim>\<open>path/filepath\<close>. On failure \<^verbatim>\<open>filepath.EvalSymlinks\<close> and
  \<^verbatim>\<open>filepath.Abs\<close> return the empty path together with the error.
\<close>

record env =
  pipelineBuild :: "operatorConfig list \<Rightarrow> error + pipelineT"
  pipelineStart :: "pipelineT \<Rightarrow> error option"
  goosWindows :: bool
  evalSymlinks :: "string \<Rightarrow> error + string"
  filepathAbs :: "string \<Rightarrow> error + string"
  filepathBase :: "string \<Rightarrow> string"

subsection \<open>The store and the trace\<close>

text \<open>
  \<open>fingerprints\<close> holds the \<^verbatim>\<open>FirstBytes\<close> of every allocated fingerprint and
  \<open>attrMaps\<close> every allocated \<^verbatim>\<open>map[string]any\<close>; an address is an index. A key bound
  to \<open>AnyNil\<close> is in the map, with a nil value.
\<close>

record world =
  fingerprints :: "byte list list"
  attrMaps :: "(string \<rightharpoonup> any) list"
  trace :: "event list"

type_synonym 'a M = "world \<Rightarrow> (error + 'a) \<times> world"

definition returnM :: "'a \<Rightarrow> 'a M" where
  "returnM x w = (Inr x, w)"

definition bindM :: "'a M \<Rightarrow> ('a \<Rightarrow> 'b M) \<Rightarrow> 'b M" where
  "bindM m k w = (case m w of (Inl e, w') \<Rightarrow> (Inl e, w') | (Inr x, w') \<Rightarrow> k x w')"

definition record_call :: "event \<Rightarrow> world \<Rightarrow> world" where
  "record_call e w = w\<lparr>trace := trace w @ [e]\<rparr>"

definition allocFingerprint :: "byte list \<Rightarrow> addr M" where
  "allocFingerprint bs w =
     (Inr (length (fingerprints w)), w\<lparr>fingerprints := fingerprints w @ [bs]\<rparr>)"

definition allocMap :: "(string \<rightharpoonup> any) \<Rightarrow> addr M" where
  "allocMap m w = (Inr (length (attrMaps w)), w\<lparr>attrMaps := attrMaps w @ [m]\<rparr>)"

text \<open>\<^verbatim>\<open>m[k]\<close>: the nil interface when the map is nil or has no such key.\<close>

definition mapIndex :: "world \<Rightarrow> addr option \<Rightarrow> string \<Rightarrow> any" where
  "mapIndex w m k =
     (case m of None \<Rightarrow> AnyNil
      | Some a \<Rightarrow> (case (attrMaps w ! a) k of None \<Rightarrow> AnyNil | Some v \<Rightarrow> v))"

text \<open>\<^verbatim>\<open>m[k] = v\<close>: Go panics when the map is nil.\<close>

definition mapAssign :: "addr option \<Rightarrow> string \<Rightarrow> any \<Rightarrow> unit M" where
  "mapAssign m k v w =
     (case m of None \<Rightarrow> (Inl (RuntimePanic ''assignment to entry in nil map''), w)
      | Some a \<Rightarrow> (Inr (), w\<lparr>attrMaps := (attrMaps w)[a := (attrMaps w ! a)(k \<mapsto> v)]\<rparr>))"

text \<open>\<^verbatim>\<open>delete(m, k)\<close>: nothing happens on a nil map.\<close>

definition mapDelete :: "addr option \<Rightarrow> string \<Rightarrow> world \<Rightarrow> world" where
  "mapDelete m k w =
     (case m of None \<Rightarrow> w
      | Some a \<Rightarrow> w\<lparr>attrMaps := (attrMaps w)[a := (attrMaps w ! a)(k := None)]\<rparr>)"

text \<open>Whether key \<open>k\<close> is in the map at \<open>m\<close>, whatever its value.\<close>

definition hasKey :: "world \<Rightarrow> addr option \<Rightarrow> string \<Rightarrow> bool" where
  "hasKey w m k = (case m of None \<Rightarrow> False | Some a \<Rightarrow> (attrMaps w ! a) k \<noteq> None)"

subsection \<open>Collaborators outside the file\<close>

text \<open>
  Modelled from the spec: the four attribute-name constants are declared elsewhere in
  package \<^verbatim>\<open>fileconsumer\<close>. The spec lists four separate attributes (file name, file
  path, resolved file name, resolved file path); they get the four distinct names the
  package gives them.
\<close>

definition logFileName :: string where
  "logFileName = ''log.file.name''"

definition logFilePath :: string where
  "logFilePath = ''log.file.path''"

definition logFileNameResolved :: string where
  "logFileNameResolved = ''log.file.name_resolved''"

definition logFilePathResolved :: string where
  "logFilePathResolved = ''log.file.path_resolved''"

text \<open>
  Modelled from the spec: \<^verbatim>\<open>Reader.offsetToEnd\<close> lives in \<^verbatim>\<open>reader.go\<close>. The spec:
  it "sets Offset to current file length without emitting anything"; a failure of the
  handle is an \<open>IOError\<close>.
\<close>

definition offsetToEnd :: "Reader \<Rightarrow> Reader M" where
  "offsetToEnd r w =
     (case r_file r of
        None \<Rightarrow> (Inl IOError, w)
      | Some f \<Rightarrow>
          (let w1 = record_call (CallStat (Name f)) w in
           if statFails f then (Inl IOError, w1)
           else (Inr (r\<lparr>Offset := int (length (contents f))\<rparr>), w1)))"

text \<open>
  Modelled from the spec: \<^verbatim>\<open>fingerprint.New\<close> lives in package
  \<^verbatim>\<open>internal/fingerprint\<close>. The spec's \<open>capture(handle, maxSize)\<close>: it reads up to
  \<open>maxSize\<close> bytes from the start of the file, a shorter file gives a shorter fingerprint,
  and a read failure other than end-of-file is an \<open>IOError\<close>.
\<close>

definition fingerprint_New :: "osFile \<Rightarrow> nat \<Rightarrow> addr M" where
  "fingerprint_New f n w =
     (let w1 = record_call (CallFingerprintRead (Name f) n) w in
      if readFails f then (Inl IOError, w1)
      else allocFingerprint (take n (contents f)) w1)"

text \<open>
  Modelled from the spec: \<^verbatim>\<open>Fingerprint.Copy\<close> lives in package
  \<^verbatim>\<open>internal/fingerprint\<close>. The spec's \<open>copy(fp)\<close>: it "returns an independent value
  copy (no shared backing storage)", so the bytes go into a newly allocated
  fingerprint. Calling it through a nil pointer dereferences nil.
\<close>

definition fingerprint_Copy :: "addr option \<Rightarrow> addr M" where
  "fingerprint_Copy p w =
     (case p of
        None \<Rightarrow> (Inl (RuntimePanic ''nil pointer dereference''), w)
      | Some a \<Rightarrow> allocFingerprint (fingerprints w ! a) w)"

text \<open>
  Modelled from the spec: \<^verbatim>\<open>util.MapCopy\<close> lives in package \<^verbatim>\<open>internal/util\<close>. The
  spec: the successor gets "a copy of the attribute mapping", so the entries go into a
  newly made map; ranging over a nil map copies nothing.
\<close>

definition MapCopy :: "addr option \<Rightarrow> addr M" where
  "MapCopy m w =
     (case m of
        None \<Rightarrow> allocMap Map.empty w
      | Some a \<Rightarrow> allocMap (attrMaps w ! a) w)"

subsection \<open>The builder\<close>

definition newReaderBuilder :: "readerFactory \<Rightarrow> readerBuilder M" where
  "newReaderBuilder f =
     bindM (allocMap Map.empty) (\<lambda>m.
     returnM \<lparr>factory = f, b_file = None, fp = None, offset = 0, b_splitFunc = None,
              headerFinalized = False, fileAttributes = Some m\<rparr>)"

definition withSplitterFunc :: "splitFunc option \<Rightarrow> readerBuilder \<Rightarrow> readerBuilder" where
  "withSplitterFunc s b = b\<lparr>b_splitFunc := s\<rparr>"

definition withFile :: "osFile option \<Rightarrow> readerBuilder \<Rightarrow> readerBuilder" where
  "withFile f b = b\<lparr>b_file := f\<rparr>"

definition withFingerprint :: "addr option \<Rightarrow> readerBuilder \<Rightarrow> readerBuilder" where
  "withFingerprint p b = b\<lparr>fp := p\<rparr>"

definition withOffset :: "int \<Rightarrow> readerBuilder \<Rightarrow> readerBuilder" where
  "withOffset n b = b\<lparr>offset := n\<rparr>"

definition withHeaderFinalized :: "bool \<Rightarrow> readerBuilder \<Rightarrow> readerBuilder" where
  "withHeaderFinalized finalized b = b\<lparr>headerFinalized := finalized\<rparr>"

definition withFileAttributes :: "addr option \<Rightarrow> readerBuilder \<Rightarrow> readerBuilder" where
  "withFileAttributes attrs b = b\<lparr>fileAttributes := attrs\<rparr>"

subsection \<open>build, stage by stage\<close>

text \<open>Lines 103 to 109: the struct literal; every other field has its zero value.\<close>

definition initReader :: "readerBuilder \<Rightarrow> Reader" where
  "initReader b =
     \<lparr>r_readerConfig = fac_readerConfig (factory b),
      Offset = offset b,
      r_headerSettings = fac_headerSettings (factory b),
      HeaderFinalized = headerFinalized b,
      FileAttributes = fileAttributes b,
      lineSplitFunc = None, encoding = None, splitFunc = None, processFunc = None,
      headerPipelineOutput = False, headerPipeline = None, r_file = None,
      loggerPath = None, Fingerprint = None\<rparr>"

text \<open>Lines 111 to 118: the builder's split function, or one from the splitter factory.\<close>

definition chooseLineSplitFunc :: "readerBuilder \<Rightarrow> Reader \<Rightarrow> Reader M" where
  "chooseLineSplitFunc b r w =
     (case b_splitFunc b of
        Some s \<Rightarrow> (Inr (r\<lparr>lineSplitFunc := Some s\<rparr>), w)
      | None \<Rightarrow>
          (case splitterFactory (factory b) (maxLogSize (fac_readerConfig (factory b))) of
             Inl e \<Rightarrow> (Inl e, w)
           | Inr s \<Rightarrow> (Inr (r\<lparr>lineSplitFunc := Some s\<rparr>), w)))"

text \<open>Lines 120 to 123.\<close>

definition buildEncoding :: "readerBuilder \<Rightarrow> Reader \<Rightarrow> Reader M" where
  "buildEncoding b r w =
     (case encodingConfig (factory b) of
        Inl e \<Rightarrow> (Inl e, w)
      | Inr enc \<Rightarrow> (Inr (r\<lparr>encoding := Some enc\<rparr>), w))"

text \<open>Lines 126 and 127: the normal phase.\<close>

definition normalPhase :: "readerBuilder \<Rightarrow> Reader \<Rightarrow> Reader" where
  "normalPhase b r =
     r\<lparr>splitFunc := lineSplitFunc r,
       processFunc := Some (EmitFunc (emit (fac_readerConfig (factory b))))\<rparr>"

text \<open>Lines 129 to 144: the header phase, with its pipeline built and started.\<close>

definition headerPhase :: "env \<Rightarrow> headerSettings \<Rightarrow> Reader \<Rightarrow> Reader M" where
  "headerPhase env hs r w =
     (let r1 = r\<lparr>splitFunc := hs_splitFunc hs, processFunc := Some ConsumeHeaderLine,
                 headerPipelineOutput := True\<rparr>;
          w1 = record_call (CallPipelineBuild (metadataOperators hs)) w
      in case pipelineBuild env (metadataOperators hs) of
           Inl e \<Rightarrow> (Inl (Wrapped ''failed to build pipeline'' e), w1)
         | Inr p \<Rightarrow>
             (let w2 = record_call (CallPipelineStart p) w1
              in case pipelineStart env p of
                   Some e \<Rightarrow> (Inl (Wrapped ''failed to start header pipeline'' e), w2)
                 | None \<Rightarrow> (Inr (r1\<lparr>headerPipeline := Some p\<rparr>), w2)))"

text \<open>Line 125: \<^verbatim>\<open>b.headerSettings == nil || b.headerFinalized\<close>.\<close>

definition choosePhase :: "env \<Rightarrow> readerBuilder \<Rightarrow> Reader \<Rightarrow> Reader M" where
  "choosePhase env b r =
     (case fac_headerSettings (factory b) of
        None \<Rightarrow> returnM (normalPhase b r)
      | Some hs \<Rightarrow>
          if headerFinalized b then returnM (normalPhase b r) else headerPhase env hs r)"

text \<open>Lines 157 to 166: symlinks are not resolved on Windows; a failure is only logged.\<close>

definition resolveSymlinks :: "env \<Rightarrow> string \<Rightarrow> world \<Rightarrow> string \<times> world" where
  "resolveSymlinks env name w =
     (if goosWindows env then (name, w)
      else
        (let w1 = record_call (CallEvalSymlinks name) w
         in case evalSymlinks env name of
              Inl e \<Rightarrow> ('''', record_call (LoggedErrorf ''resolve symlinks'' e) w1)
            | Inr p \<Rightarrow> (p, w1)))"

text \<open>Lines 167 to 170: a failure is only logged.\<close>

definition resolveAbs :: "env \<Rightarrow> string \<Rightarrow> world \<Rightarrow> string \<times> world" where
  "resolveAbs env resolved w =
     (let w1 = record_call (CallAbs resolved) w
      in case filepathAbs env resolved of
           Inl e \<Rightarrow> ('''', record_call (LoggedErrorf ''resolve abs'' e) w1)
         | Inr p \<Rightarrow> (p, w1))"

text \<open>
  One of the four blocks of lines 172 to 191: set the attribute when its flag is on,
  otherwise delete it when the map holds a non-nil value for it.
\<close>

definition setFileAttribute :: "bool \<Rightarrow> addr option \<Rightarrow> string \<Rightarrow> string \<Rightarrow> unit M" where
  "setFileAttribute included m k v w =
     (if included then mapAssign m k (AnyString v) w
      else if mapIndex w m k \<noteq> AnyNil then (Inr (), mapDelete m k w)
      else (Inr (), w))"

text \<open>Lines 172 to 191: the four blocks, in the order of the source.\<close>

definition setFileAttributes ::
  "env \<Rightarrow> readerConfig \<Rightarrow> addr option \<Rightarrow> string \<Rightarrow> string \<Rightarrow> unit M" where
  "setFileAttributes env cfg m name absPath =
     bindM (setFileAttribute (includeFileName cfg) m logFileName (filepathBase env name)) (\<lambda>_.
     bindM (setFileAttribute (includeFilePath cfg) m logFilePath name) (\<lambda>_.
     bindM (setFileAttribute (includeFileNameResolved cfg) m logFileNameResolved
              (filepathBase env absPath)) (\<lambda>_.
     setFileAttribute (includeFilePathResolved cfg) m logFilePathResolved absPath)))"

text \<open>Lines 152 to 191.\<close>

definition bindFile :: "env \<Rightarrow> readerBuilder \<Rightarrow> osFile \<Rightarrow> Reader \<Rightarrow> Reader M" where
  "bindFile env b f r w =
     (let r1 = r\<lparr>r_file := Some f, loggerPath := Some (Name f),
                 FileAttributes := fileAttributes b\<rparr>;
          (resolved, w1) = resolveSymlinks env (Name f) w;
          (absPath, w2) = resolveAbs env resolved w1
      in bindM (setFileAttributes env (fac_readerConfig (factory b)) (FileAttributes r1)
                  (Name f) absPath)
           (\<lambda>_. returnM r1) w2)"

text \<open>Lines 193 to 197.\<close>

definition seekStart :: "readerBuilder \<Rightarrow> Reader \<Rightarrow> Reader M" where
  "seekStart b r = (if \<not> fromBeginning (factory b) then offsetToEnd r else returnM r)"

definition newFingerprint :: "readerFactory \<Rightarrow> osFile \<Rightarrow> addr M" where
  "newFingerprint f fl = fingerprint_New fl (fingerprintSize (fac_readerConfig f))"

text \<open>Lines 199 to 210.\<close>

definition chooseFingerprint :: "readerBuilder \<Rightarrow> osFile \<Rightarrow> Reader \<Rightarrow> Reader M" where
  "chooseFingerprint b f r =
     (case fp b of
        Some p \<Rightarrow> returnM (r\<lparr>Fingerprint := Some p\<rparr>)
      | None \<Rightarrow>
          bindM (newFingerprint (factory b) f) (\<lambda>p. returnM (r\<lparr>Fingerprint := Some p\<rparr>)))"

definition build :: "env \<Rightarrow> readerBuilder \<Rightarrow> Reader M" where
  "build env b =
     bindM (chooseLineSplitFunc b (initReader b)) (\<lambda>r.
     bindM (buildEncoding b r) (\<lambda>r.
     bindM (choosePhase env b r) (\<lambda>r.
       case b_file b of
         None \<Rightarrow> returnM (r\<lparr>loggerPath := Some ''uninitialized''\<rparr>)
       | Some f \<Rightarrow>
           bindM (bindFile env b f r) (\<lambda>r.
           bindM (seekStart b r) (\<lambda>r.
           chooseFingerprint b f r)))))"

subsection \<open>The three constructors\<close>

definition newReader :: "env \<Rightarrow> readerFactory \<Rightarrow> osFile option \<Rightarrow> addr option \<Rightarrow> Reader M" where
  "newReader env f fl p =
     bindM (newReaderBuilder f) (\<lambda>b.
     build env (withFingerprint p (withFile fl b)))"

definition copy :: "env \<Rightarrow> readerFactory \<Rightarrow> Reader \<Rightarrow> osFile option \<Rightarrow> Reader M" where
  "copy env f old newFile =
     bindM (newReaderBuilder f) (\<lambda>b.
     bindM (fingerprint_Copy (Fingerprint old)) (\<lambda>p.
     bindM (MapCopy (FileAttributes old)) (\<lambda>attrs.
     build env
       (withHeaderFinalized (HeaderFinalized old)
         (withFileAttributes (Some attrs)
           (withSplitterFunc (lineSplitFunc old)
             (withOffset (Offset old)
               (withFingerprint (Some p)
                 (withFile newFile b)))))))))"

definition unsafeReader :: "env \<Rightarrow> readerFactory \<Rightarrow> Reader M" where
  "unsafeReader env f = bindM (newReaderBuilder f) (\<lambda>b. build env b)"

subsection \<open>Vocabulary of the properties\<close>

text \<open>The calls that construct and start a header pipeline.\<close>

fun isPipelineCall :: "event \<Rightarrow> bool" where
  "isPipelineCall (CallPipelineBuild _) = True"
| "isPipelineCall (CallPipelineStart _) = True"
| "isPipelineCall _ = False"

text \<open>The calls that touch the bound file or its path.\<close>

fun isFileCall :: "event \<Rightarrow> bool" where
  "isFileCall (CallEvalSymlinks _) = True"
| "isFileCall (CallAbs _) = True"
| "isFileCall (CallStat _) = True"
| "isFileCall (CallFingerprintRead _ _) = True"
| "isFileCall _ = False"

fun isFingerprintRead :: "event \<Rightarrow> bool" where
  "isFingerprintRead (CallFingerprintRead _ _) = True"
| "isFingerprintRead _ = False"

text \<open>The calls and log entries of path resolution, lines 157 to 170.\<close>

fun isResolveEvent :: "event \<Rightarrow> bool" where
  "isResolveEvent (CallEvalSymlinks _) = True"
| "isResolveEvent (CallAbs _) = True"
| "isResolveEvent (LoggedErrorf _ _) = True"
| "isResolveEvent _ = False"

text \<open>The calls recorded between two stores.\<close>

definition callsDuring :: "world \<Rightarrow> world \<Rightarrow> event list" where
  "callsDuring w w' = drop (length (trace w)) (trace w')"

text \<open>
  Header phase: the header's split function, \<^verbatim>\<open>consumeHeaderLine\<close> as process
  function, and a header pipeline that was built and whose start succeeded.
\<close>

definition inHeaderPhase :: "env \<Rightarrow> Reader \<Rightarrow> bool" where
  "inHeaderPhase env r =
     (case r_headerSettings r of
        None \<Rightarrow> False
      | Some hs \<Rightarrow>
          splitFunc r = hs_splitFunc hs \<and> processFunc r = Some ConsumeHeaderLine \<and>
          (case headerPipeline r of
             None \<Rightarrow> False
           | Some p \<Rightarrow>
               pipelineBuild env (metadataOperators hs) = Inr p \<and> pipelineStart env p = None))"

text \<open>Normal phase: the line split function, the emit function, no header pipeline.\<close>

definition inNormalPhase :: "Reader \<Rightarrow> bool" where
  "inNormalPhase r =
     (splitFunc r = lineSplitFunc r \<and>
      processFunc r = Some (EmitFunc (emit (r_readerConfig r))) \<and>
      headerPipeline r = None \<and> \<not> headerPipelineOutput r)"

text \<open>An address is live when the store holds an object there.\<close>

definition liveMap :: "world \<Rightarrow> addr option \<Rightarrow> bool" where
  "liveMap w m = (case m of None \<Rightarrow> True | Some a \<Rightarrow> a < length (attrMaps w))"

definition liveFingerprint :: "world \<Rightarrow> addr option \<Rightarrow> bool" where
  "liveFingerprint w p = (case p of None \<Rightarrow> True | Some a \<Rightarrow> a < length (fingerprints w))"

text \<open>A map holds a key with a nil value.\<close>

definition nilValued :: "world \<Rightarrow> addr option \<Rightarrow> string \<Rightarrow> bool" where
  "nilValued w m k = (case m of None \<Rightarrow> False | Some a \<Rightarrow> (attrMaps w ! a) k = Some AnyNil)"

text \<open>No name of a disabled flag is held with a nil value.\<close>

definition noNilUnderDisabled :: "readerConfig \<Rightarrow> world \<Rightarrow> addr option \<Rightarrow> bool" where
  "noNilUnderDisabled cfg w m =
     ((includeFileName cfg \<or> \<not> nilValued w m logFileName) \<and>
      (includeFilePath cfg \<or> \<not> nilValued w m logFilePath) \<and>
      (includeFileNameResolved cfg \<or> \<not> nilValued w m logFileNameResolved) \<and>
      (includeFilePathResolved cfg \<or> \<not> nilValued w m logFilePathResolved))"

text \<open>The bytes of a fingerprint and the entries of a map, through a possibly nil pointer.\<close>

definition fingerprintBytes :: "world \<Rightarrow> addr option \<Rightarrow> byte list" where
  "fingerprintBytes w p = (case p of None \<Rightarrow> [] | Some a \<Rightarrow> fingerprints w ! a)"

definition mapEntries :: "world \<Rightarrow> addr option \<Rightarrow> (string \<rightharpoonup> any)" where
  "mapEntries w m = (case m of None \<Rightarrow> Map.empty | Some a \<Rightarrow> attrMaps w ! a)"

text \<open>Overwriting the bytes of the fingerprint that \<open>p\<close> points to.\<close>

definition writeFingerprint :: "addr option \<Rightarrow> byte list \<Rightarrow> world \<Rightarrow> world" where
  "writeFingerprint p bs w =
     (case p of None \<Rightarrow> w | Some a \<Rightarrow> w\<lparr>fingerprints := (fingerprints w)[a := bs]\<rparr>)"

text \<open>The path that \<^verbatim>\<open>filepath.Abs\<close> is called on, lines 157 to 166.\<close>

definition resolvedName :: "env \<Rightarrow> osFile \<Rightarrow> string" where
  "resolvedName env f =
     (if goosWindows env then Name f
      else case evalSymlinks env (Name f) of Inl _ \<Rightarrow> '''' | Inr p \<Rightarrow> p)"

subsection \<open>When a build succeeds\<close>

text \<open>Lines 111 to 123 succeed: a split function is at hand and the encoding builds.\<close>

definition earlyStagesOk :: "readerBuilder \<Rightarrow> bool" where
  "earlyStagesOk b =
     ((b_splitFunc b \<noteq> None \<or>
       \<not> isl (splitterFactory (factory b) (maxLogSize (fac_readerConfig (factory b))))) \<and>
      \<not> isl (encodingConfig (factory b)))"

text \<open>Lines 125 to 145 succeed: no pipeline is needed, or it builds and starts.\<close>

definition phaseOk :: "env \<Rightarrow> readerBuilder \<Rightarrow> bool" where
  "phaseOk env b =
     (case fac_headerSettings (factory b) of
        None \<Rightarrow> True
      | Some hs \<Rightarrow>
          headerFinalized b \<or>
          (case pipelineBuild env (metadataOperators hs) of
             Inl _ \<Rightarrow> False
           | Inr p \<Rightarrow> pipelineStart env p = None))"

text \<open>Some attribute is to be written.\<close>

definition anyIncluded :: "readerConfig \<Rightarrow> bool" where
  "anyIncluded cfg =
     (includeFileName cfg \<or> includeFilePath cfg \<or> includeFileNameResolved cfg \<or>
      includeFilePathResolved cfg)"

text \<open>
  Lines 152 to 210 succeed on file \<open>f\<close>: no attribute is written into a nil map, the
  seek to the end (when asked for) works, and so does the read of the fingerprint (when
  none was supplied).
\<close>

definition fileStagesOk :: "readerBuilder \<Rightarrow> osFile \<Rightarrow> bool" where
  "fileStagesOk b f =
     ((fileAttributes b \<noteq> None \<or> \<not> anyIncluded (fac_readerConfig (factory b))) \<and>
      (fromBeginning (factory b) \<or> \<not> statFails f) \<and>
      (fp b \<noteq> None \<or> \<not> readFails f))"

text \<open>Every stage of \<open>build\<close> succeeds.\<close>

definition buildOk :: "env \<Rightarrow> readerBuilder \<Rightarrow> bool" where
  "buildOk env b =
     (earlyStagesOk b \<and> phaseOk env b \<and>
      (case b_file b of None \<Rightarrow> True | Some f \<Rightarrow> fileStagesOk b f))"

subsection \<open>The constructors as builds\<close>

text \<open>What \<^verbatim>\<open>newReaderBuilder\<close> returns, and the store it leaves.\<close>

definition freshBuilder :: "readerFactory \<Rightarrow> world \<Rightarrow> readerBuilder" where
  "freshBuilder f w =
     \<lparr>factory = f, b_file = None, fp = None, offset = 0, b_splitFunc = None,
      headerFinalized = False, fileAttributes = Some (length (attrMaps w))\<rparr>"

definition withEmptyMap :: "world \<Rightarrow> world" where
  "withEmptyMap w = w\<lparr>attrMaps := attrMaps w @ [Map.empty]\<rparr>"

text \<open>The builder and the store on which \<^verbatim>\<open>copy\<close> calls \<^verbatim>\<open>build\<close>.\<close>

definition copyBuilder :: "readerFactory \<Rightarrow> Reader \<Rightarrow> osFile option \<Rightarrow> world \<Rightarrow> readerBuilder" where
  "copyBuilder f old newFile w =
     \<lparr>factory = f, b_file = newFile, fp = Some (length (fingerprints w)), offset = Offset old,
      b_splitFunc = lineSplitFunc old, headerFinalized = HeaderFinalized old,
      fileAttributes = Some (Suc (length (attrMaps w)))\<rparr>"

definition copyWorld :: "Reader \<Rightarrow> addr \<Rightarrow> world \<Rightarrow> world" where
  "copyWorld old a w =
     w\<lparr>fingerprints := fingerprints w @ [fingerprints w ! a],
       attrMaps := attrMaps w @
          [Map.empty,
           case FileAttributes old of None \<Rightarrow> Map.empty
           | Some m \<Rightarrow> (attrMaps w @ [Map.empty]) ! m]\<rparr>"

subsection \<open>What a build does to a map\<close>

text \<open>What one block of lines 172 to 191 does to the contents of a map.\<close>

definition attrStep :: "bool \<Rightarrow> string \<Rightarrow> string \<Rightarrow> (string \<rightharpoonup> any) \<Rightarrow> (string \<rightharpoonup> any)" where
  "attrStep included k v mp =
     (if included then mp(k \<mapsto> AnyString v)
      else if mp k \<noteq> None \<and> mp k \<noteq> Some AnyNil then mp(k := None)
      else mp)"

text \<open>What lines 172 to 191 do to the contents of a map.\<close>

definition attrSteps ::
  "env \<Rightarrow> readerConfig \<Rightarrow> string \<Rightarrow> string \<Rightarrow> (string \<rightharpoonup> any) \<Rightarrow> (string \<rightharpoonup> any)" where
  "attrSteps env cfg name absPath mp =
     attrStep (includeFilePathResolved cfg) logFilePathResolved absPath
       (attrStep (includeFileNameResolved cfg) logFileNameResolved (filepathBase env absPath)
         (attrStep (includeFilePath cfg) logFilePath name
           (attrStep (includeFileName cfg) logFileName (filepathBase env name) mp)))"

subsection \<open>Relations between the store before and after\<close>

text \<open>Every run of \<open>m\<close>, failed or not, relates the store before to the store after by \<open>Q\<close>.\<close>

definition stepRel :: "(world \<Rightarrow> world \<Rightarrow> bool) \<Rightarrow> 'a M \<Rightarrow> bool" where
  "stepRel Q m = (\<forall>w res w'. m w = (res, w') \<longrightarrow> Q w w')"

text \<open>The trace grew, and only by calls that satisfy \<open>P\<close>.\<close>

definition traceExt :: "(event \<Rightarrow> bool) \<Rightarrow> world \<Rightarrow> world \<Rightarrow> bool" where
  "traceExt P w w' = (\<exists>evs. trace w' = trace w @ evs \<and> (\<forall>e\<in>set evs. P e))"

text \<open>No map was allocated, and every map other than \<open>m\<close> is as it was.\<close>

definition mapsFrame :: "addr option \<Rightarrow> world \<Rightarrow> world \<Rightarrow> bool" where
  "mapsFrame m w w' =
     (length (attrMaps w') = length (attrMaps w) \<and>
      (\<forall>a. Some a \<noteq> m \<longrightarrow> attrMaps w' ! a = attrMaps w ! a))"

text \<open>The part of the store a build leaves alone.\<close>

definition storeFrame :: "readerBuilder \<Rightarrow> world \<Rightarrow> world \<Rightarrow> bool" where
  "storeFrame b u u' =
     (mapsFrame (fileAttributes b) u u' \<and>
      (b_file b = None \<longrightarrow> attrMaps u' = attrMaps u) \<and>
      (b_file b = None \<or> fp b \<noteq> None \<longrightarrow> fingerprints u' = fingerprints u))"

subsection \<open>A concrete configuration\<close>

definition ex_cfg :: readerConfig where
  "ex_cfg =
     \<lparr>fingerprintSize = 4, maxLogSize = 1024, emit = 7,
      includeFileName = True, includeFilePath = False,
      includeFileNameResolved = False, includeFilePathResolved = True\<rparr>"

definition ex_header :: headerSettings where
  "ex_header = \<lparr>hs_splitFunc = Some 3, metadataOperators = [11, 12]\<rparr>"

definition ex_factory :: readerFactory where
  "ex_factory =
     \<lparr>fac_readerConfig = ex_cfg, fromBeginning = True,
      splitterFactory = (\<lambda>_. Inr 1), encodingConfig = Inr 2,
      fac_headerSettings = None\<rparr>"

definition ex_env :: env where
  "ex_env =
     \<lparr>pipelineBuild = (\<lambda>_. Inr 5), pipelineStart = (\<lambda>_. None), goosWindows = False,
      evalSymlinks = (\<lambda>n. Inr n), filepathAbs = (\<lambda>n. Inr (''/var/log/'' @ n)),
      filepathBase = (\<lambda>p. if p = ''/var/log/app.log'' then ''app.log'' else p)\<rparr>"

definition ex_file :: osFile where
  "ex_file =
     \<lparr>Name = ''app.log'', contents = [65, 10, 66, 10, 67, 10, 68, 10, 69, 10],
      statFails = False, readFails = False\<rparr>"

definition ex_world :: world where
  "ex_world =
     \<lparr>fingerprints = [ [65, 10, 66, 10] ],
      attrMaps = [ [logFileName \<mapsto> AnyString ''app.log'', logFilePath \<mapsto> AnyString ''app.log''] ],
      trace = []\<rparr>"

definition ex_old :: Reader where
  "ex_old =
     \<lparr>r_readerConfig = ex_cfg, Offset = 100, r_headerSettings = Some ex_header,
      HeaderFinalized = True, FileAttributes = Some 0, lineSplitFunc = Some 1,
      encoding = Some 2, splitFunc = Some 1, processFunc = Some (EmitFunc 7),
      headerPipelineOutput = False, headerPipeline = None, r_file = None,
      loggerPath = Some ''app.log'', Fingerprint = Some 0\<rparr>"

text \<open>Variations of the factory and of the environment.\<close>

definition ex_header_factory :: readerFactory where
  "ex_header_factory = ex_factory\<lparr>fac_headerSettings := Some ex_header\<rparr>"

definition ex_end_factory :: readerFactory where
  "ex_end_factory = ex_factory\<lparr>fromBeginning := False\<rparr>"

definition ex_failing_env :: env where
  "ex_failing_env = ex_env\<lparr>pipelineBuild := (\<lambda>_. Inl (ExternalError ''unknown operator''))\<rparr>"

text \<open>Neither symlinks nor the working directory can be resolved.\<close>

definition ex_unresolvable_env :: env where
  "ex_unresolvable_env =
     ex_env\<lparr>evalSymlinks := (\<lambda>_. Inl (ExternalError ''no such file or directory'')),
            filepathAbs := (\<lambda>_. Inl (ExternalError ''getwd failed''))\<rparr>"

text \<open>The same file, on which reads fail.\<close>

definition ex_unreadable_file :: osFile where
  "ex_unreadable_file = ex_file\<lparr>readFails := True\<rparr>"

text \<open>A store whose only attribute map holds the file path attribute with a nil value.\<close>

definition ex_nil_world :: world where
  "ex_nil_world =
     \<lparr>fingerprints = [ [65, 10, 66, 10] ], attrMaps = [ [logFilePath \<mapsto> AnyNil] ], trace = []\<rparr>"

text \<open>A builder on the file, with header settings and the first map of the store.\<close>

definition ex_builder :: readerBuilder where
  "ex_builder =
     \<lparr>factory = ex_header_factory, b_file = Some ex_file, fp = None, offset = 0,
      b_splitFunc = None, headerFinalized = False, fileAttributes = Some 0\<rparr>"

section \<open>Properties\<close>

subsection \<open>The stages of build\<close>

subsubsection \<open>Monad\<close>

lemma bindM_Inr:
  "bindM m k w = (Inr y, w'') \<longleftrightarrow> (\<exists>x w'. m w = (Inr x, w') \<and> k x w' = (Inr y, w''))"
  by (auto simp: bindM_def split: prod.splits sum.splits)

lemma bindM_cases:
  "bindM m k w = (res, w'') \<longleftrightarrow>
     (\<exists>e. m w = (Inl e, w'') \<and> res = Inl e) \<or> (\<exists>x w'. m w = (Inr x, w') \<and> k x w' = (res, w''))"
  by (auto simp: bindM_def split: prod.splits sum.splits)

lemma bindM_Inl_left: "m w = (Inl e, w') \<Longrightarrow> bindM m k w = (Inl e, w')"
  by (simp add: bindM_def)

lemma bindM_Inr_left: "m w = (Inr x, w') \<Longrightarrow> bindM m k w = k x w'"
  by (simp add: bindM_def)

lemma returnM_eq: "returnM x w = (res, w') \<longleftrightarrow> res = Inr x \<and> w' = w"
  by (auto simp: returnM_def)

lemma record_call_fields [simp]:
  "fingerprints (record_call e w) = fingerprints w"
  "attrMaps (record_call e w) = attrMaps w"
  "trace (record_call e w) = trace w @ [e]"
  by (simp_all add: record_call_def)

lemma stepRelD: "stepRel Q m \<Longrightarrow> m w = (res, w') \<Longrightarrow> Q w w'"
  by (simp add: stepRel_def)

lemma stepRel_return: "(\<And>w. Q w w) \<Longrightarrow> stepRel Q (returnM x)"
  by (simp add: stepRel_def returnM_def)

lemma stepRel_bind:
  assumes tr: "\<And>a b c. Q a b \<Longrightarrow> Q b c \<Longrightarrow> Q a c"
    and m: "stepRel Q m" and k: "\<And>x. stepRel Q (k x)"
  shows "stepRel Q (bindM m k)"
  unfolding stepRel_def
proof (intro allI impI)
  fix w res w'' assume "bindM m k w = (res, w'')"
  then consider e where "m w = (Inl e, w'')"
    | x w' where "m w = (Inr x, w')" "k x w' = (res, w'')"
    by (auto simp: bindM_cases)
  then show "Q w w''"
  proof cases
    case 1 then show ?thesis using m by (auto dest: stepRelD)
  next
    case 2 then show ?thesis using m k tr by (blast dest: stepRelD)
  qed
qed

lemma traceExt_refl: "traceExt P w w"
  by (simp add: traceExt_def)

lemma traceExt_same: "trace w' = trace w \<Longrightarrow> traceExt P w w'"
  by (simp add: traceExt_def)

lemma traceExt_trans: "traceExt P a b \<Longrightarrow> traceExt P b c \<Longrightarrow> traceExt P a c"
  by (fastforce simp: traceExt_def)

lemma traceExt_record: "P e \<Longrightarrow> traceExt P w (record_call e w)"
  by (simp add: traceExt_def)

lemma traceExt_record2: "P e \<Longrightarrow> traceExt P w w1 \<Longrightarrow> traceExt P w (record_call e w1)"
  by (fastforce simp: traceExt_def)

lemma mapsFrame_refl: "mapsFrame m w w"
  by (simp add: mapsFrame_def)

lemma mapsFrame_same: "attrMaps w' = attrMaps w \<Longrightarrow> mapsFrame m w w'"
  by (simp add: mapsFrame_def)

lemma mapsFrame_trans: "mapsFrame m a b \<Longrightarrow> mapsFrame m b c \<Longrightarrow> mapsFrame m a c"
  by (simp add: mapsFrame_def)

subsubsection \<open>Stages 1 and 2\<close>

lemma chooseLineSplitFunc_cases:
  "chooseLineSplitFunc b r w = (res, w') \<Longrightarrow>
     w' = w \<and> (\<forall>r'. res = Inr r' \<longrightarrow> (\<exists>s. r' = r\<lparr>lineSplitFunc := Some s\<rparr>))"
  by (auto simp: chooseLineSplitFunc_def split: option.splits sum.splits)

lemma buildEncoding_cases:
  "buildEncoding b r w = (res, w') \<Longrightarrow>
     w' = w \<and> (\<forall>r'. res = Inr r' \<longrightarrow> (\<exists>s. r' = r\<lparr>encoding := Some s\<rparr>))"
  by (auto simp: buildEncoding_def split: option.splits sum.splits)

subsubsection \<open>Phase\<close>

lemma headerPhase_Inr:
  "headerPhase env hs r w = (Inr r', w') \<Longrightarrow>
     (\<exists>p. pipelineBuild env (metadataOperators hs) = Inr p \<and> pipelineStart env p = None \<and>
       r' = r\<lparr>splitFunc := hs_splitFunc hs, processFunc := Some ConsumeHeaderLine,
               headerPipelineOutput := True, headerPipeline := Some p\<rparr> \<and>
       w' = record_call (CallPipelineStart p)
              (record_call (CallPipelineBuild (metadataOperators hs)) w))"
  by (auto simp: headerPhase_def Let_def split: option.splits sum.splits)

lemma headerPhase_store:
  "headerPhase env hs r w = (res, w') \<Longrightarrow>
     fingerprints w' = fingerprints w \<and> attrMaps w' = attrMaps w"
  by (auto simp: headerPhase_def Let_def split: option.splits sum.splits)

lemma headerPhase_trace:
  "headerPhase env hs r w = (res, w') \<Longrightarrow> (\<And>e. isPipelineCall e \<Longrightarrow> P e) \<Longrightarrow> traceExt P w w'"
  by (auto simp: headerPhase_def Let_def traceExt_def split: option.splits sum.splits)

lemma choosePhase_normal:
  "fac_headerSettings (factory b) = None \<or> headerFinalized b \<Longrightarrow>
     choosePhase env b r w = (Inr (normalPhase b r), w)"
  by (auto simp: choosePhase_def returnM_def split: option.splits)

lemma choosePhase_header:
  "fac_headerSettings (factory b) = Some hs \<Longrightarrow> \<not> headerFinalized b \<Longrightarrow>
     choosePhase env b r w = headerPhase env hs r w"
  by (simp add: choosePhase_def)

lemma choosePhase_store:
  "choosePhase env b r w = (res, w') \<Longrightarrow>
     fingerprints w' = fingerprints w \<and> attrMaps w' = attrMaps w"
  by (auto simp: choosePhase_def returnM_def dest: headerPhase_store split: option.splits if_splits)

lemma choosePhase_trace:
  assumes "choosePhase env b r w = (res, w')"
    and "\<And>e. fac_headerSettings (factory b) \<noteq> None \<Longrightarrow> \<not> headerFinalized b \<Longrightarrow>
           isPipelineCall e \<Longrightarrow> P e"
  shows "traceExt P w w'"
proof (cases "fac_headerSettings (factory b) = None \<or> headerFinalized b")
  case True
  with assms(1) show ?thesis by (simp add: choosePhase_normal traceExt_refl)
next
  case False
  then obtain hs where "fac_headerSettings (factory b) = Some hs" "\<not> headerFinalized b" by auto
  with assms show ?thesis by (auto simp: choosePhase_header intro: headerPhase_trace)
qed

subsubsection \<open>Binding the file\<close>

lemma resolveSymlinks_store:
  "resolveSymlinks env n w = (p, w') \<Longrightarrow>
     fingerprints w' = fingerprints w \<and> attrMaps w' = attrMaps w"
  by (auto simp: resolveSymlinks_def Let_def split: if_splits sum.splits)

lemma resolveAbs_store:
  "resolveAbs env n w = (p, w') \<Longrightarrow>
     fingerprints w' = fingerprints w \<and> attrMaps w' = attrMaps w"
  by (auto simp: resolveAbs_def Let_def split: if_splits sum.splits)

lemma resolveSymlinks_trace:
  "resolveSymlinks env n w = (p, w') \<Longrightarrow> (\<And>e. isResolveEvent e \<Longrightarrow> P e) \<Longrightarrow> traceExt P w w'"
  by (auto simp: resolveSymlinks_def Let_def traceExt_def split: if_splits sum.splits)

lemma resolveAbs_trace:
  "resolveAbs env n w = (p, w') \<Longrightarrow> (\<And>e. isResolveEvent e \<Longrightarrow> P e) \<Longrightarrow> traceExt P w w'"
  by (auto simp: resolveAbs_def Let_def traceExt_def split: if_splits sum.splits)

lemma setFileAttribute_None:
  "setFileAttribute included None k v w =
     (if included then (Inl (RuntimePanic ''assignment to entry in nil map''), w) else (Inr (), w))"
  by (simp add: setFileAttribute_def mapAssign_def mapIndex_def)

lemma setFileAttribute_Some:
  "a < length (attrMaps w) \<Longrightarrow>
     setFileAttribute included (Some a) k v w =
       (Inr (), w\<lparr>attrMaps := (attrMaps w)[a := attrStep included k v (attrMaps w ! a)]\<rparr>)"
  by (auto simp: setFileAttribute_def mapAssign_def mapIndex_def mapDelete_def attrStep_def
           split: option.splits)

lemma setFileAttribute_frame:
  "setFileAttribute included m k v w = (res, w') \<Longrightarrow>
     trace w' = trace w \<and> fingerprints w' = fingerprints w \<and> mapsFrame m w w'"
  by (cases m)
     (auto simp: setFileAttribute_def mapAssign_def mapIndex_def mapDelete_def mapsFrame_def
           split: option.splits if_splits)

lemma setFileAttributes_None:
  "setFileAttributes env cfg None name absPath w =
     (if includeFileName cfg \<or> includeFilePath cfg \<or> includeFileNameResolved cfg
           \<or> includeFilePathResolved cfg
      then (Inl (RuntimePanic ''assignment to entry in nil map''), w) else (Inr (), w))"
  by (simp add: setFileAttributes_def setFileAttribute_None bindM_def)

lemma setFileAttributes_Some:
  "a < length (attrMaps w) \<Longrightarrow>
     setFileAttributes env cfg (Some a) name absPath w =
       (Inr (), w\<lparr>attrMaps := (attrMaps w)[a := attrSteps env cfg name absPath (attrMaps w ! a)]\<rparr>)"
  by (simp add: setFileAttributes_def setFileAttribute_Some bindM_def attrSteps_def)

lemma setFileAttributes_frame:
  assumes "setFileAttributes env cfg m name absPath w = (res, w')"
  shows "trace w' = trace w \<and> fingerprints w' = fingerprints w \<and> mapsFrame m w w'"
proof -
  let ?Q = "\<lambda>u u'. trace u' = trace u \<and> fingerprints u' = fingerprints u \<and> mapsFrame m u u'"
  have s: "\<And>i k v. stepRel ?Q (setFileAttribute i m k v)"
    unfolding stepRel_def by (blast dest: setFileAttribute_frame)
  have "stepRel ?Q (setFileAttributes env cfg m name absPath)"
    unfolding setFileAttributes_def
    by (intro stepRel_bind[where Q="?Q"] s) (auto intro: mapsFrame_trans)
  with assms show ?thesis by (blast dest: stepRelD)
qed

lemma bindFile_eq:
  assumes rs: "resolveSymlinks env (Name f) w = (resolved, w1)"
    and ra: "resolveAbs env resolved w1 = (absPath, w2)"
  shows "bindFile env b f r w =
     bindM (setFileAttributes env (fac_readerConfig (factory b)) (fileAttributes b) (Name f) absPath)
       (\<lambda>_. returnM (r\<lparr>r_file := Some f, loggerPath := Some (Name f),
                       FileAttributes := fileAttributes b\<rparr>)) w2"
  by (simp add: bindFile_def Let_def rs ra)

lemma bindFile_Some:
  assumes a: "fileAttributes b = Some a" "a < length (attrMaps w)"
    and rs: "resolveSymlinks env (Name f) w = (resolved, w1)"
    and ra: "resolveAbs env resolved w1 = (absPath, w2)"
  shows "bindFile env b f r w =
     (Inr (r\<lparr>r_file := Some f, loggerPath := Some (Name f), FileAttributes := Some a\<rparr>),
      w2\<lparr>attrMaps := (attrMaps w)[a := attrSteps env (fac_readerConfig (factory b)) (Name f) absPath
                                      (attrMaps w ! a)]\<rparr>)"
proof -
  have m: "attrMaps w2 = attrMaps w"
    using resolveSymlinks_store[OF rs] resolveAbs_store[OF ra] by simp
  show ?thesis
    using a by (simp add: bindFile_eq[OF rs ra] m setFileAttributes_Some bindM_def returnM_def)
qed

lemma bindFile_None:
  assumes a: "fileAttributes b = None"
    and rs: "resolveSymlinks env (Name f) w = (resolved, w1)"
    and ra: "resolveAbs env resolved w1 = (absPath, w2)"
  shows "bindFile env b f r w =
     (if includeFileName (fac_readerConfig (factory b)) \<or> includeFilePath (fac_readerConfig (factory b))
         \<or> includeFileNameResolved (fac_readerConfig (factory b))
         \<or> includeFilePathResolved (fac_readerConfig (factory b))
      then (Inl (RuntimePanic ''assignment to entry in nil map''), w2)
      else (Inr (r\<lparr>r_file := Some f, loggerPath := Some (Name f), FileAttributes := None\<rparr>), w2))"
  using a by (simp add: bindFile_eq[OF rs ra] setFileAttributes_None bindM_def returnM_def)

lemma bindFile_frame:
  assumes "bindFile env b f r w = (res, w')"
  shows "fingerprints w' = fingerprints w \<and> mapsFrame (fileAttributes b) w w'"
proof -
  obtain resolved w1 where rs: "resolveSymlinks env (Name f) w = (resolved, w1)" by force
  obtain absPath w2 where ra: "resolveAbs env resolved w1 = (absPath, w2)" by force
  have st: "fingerprints w2 = fingerprints w" "attrMaps w2 = attrMaps w"
    using resolveSymlinks_store[OF rs] resolveAbs_store[OF ra] by simp_all
  from assms have "fingerprints w' = fingerprints w2 \<and> mapsFrame (fileAttributes b) w2 w'"
    unfolding bindFile_eq[OF rs ra]
    by (auto simp: bindM_cases returnM_eq dest: setFileAttributes_frame)
  with st show ?thesis by (simp add: mapsFrame_def)
qed

lemma bindFile_trace:
  assumes "bindFile env b f r w = (res, w')" and P: "\<And>e. isResolveEvent e \<Longrightarrow> P e"
  shows "traceExt P w w'"
proof -
  obtain resolved w1 where rs: "resolveSymlinks env (Name f) w = (resolved, w1)" by force
  obtain absPath w2 where ra: "resolveAbs env resolved w1 = (absPath, w2)" by force
  have "traceExt P w w1" using rs P by (rule resolveSymlinks_trace)
  moreover have "traceExt P w1 w2" using ra P by (rule resolveAbs_trace)
  ultimately have "traceExt P w w2" by (rule traceExt_trans)
  moreover from assms(1) have "trace w' = trace w2"
    unfolding bindFile_eq[OF rs ra]
    by (auto simp: bindM_cases returnM_eq dest: setFileAttributes_frame)
  ultimately show ?thesis by (simp add: traceExt_def)
qed

subsubsection \<open>Seek and fingerprint\<close>

lemma offsetToEnd_eq:
  "r_file r = Some f \<Longrightarrow>
     offsetToEnd r w =
       (if statFails f then (Inl IOError, record_call (CallStat (Name f)) w)
        else (Inr (r\<lparr>Offset := int (length (contents f))\<rparr>), record_call (CallStat (Name f)) w))"
  by (simp add: offsetToEnd_def Let_def)

lemma seekStart_store:
  "seekStart b r w = (res, w') \<Longrightarrow> fingerprints w' = fingerprints w \<and> attrMaps w' = attrMaps w"
  by (auto simp: seekStart_def offsetToEnd_def returnM_def Let_def split: if_splits option.splits)

lemma seekStart_trace:
  "seekStart b r w = (res, w') \<Longrightarrow> (\<And>n. \<not> fromBeginning (factory b) \<Longrightarrow> P (CallStat n)) \<Longrightarrow>
     traceExt P w w'"
  by (auto simp: seekStart_def offsetToEnd_def returnM_def Let_def traceExt_def
           split: if_splits option.splits)

lemma chooseFingerprint_Some:
  "fp b = Some p \<Longrightarrow> chooseFingerprint b f r w = (Inr (r\<lparr>Fingerprint := Some p\<rparr>), w)"
  by (simp add: chooseFingerprint_def returnM_def)

lemma chooseFingerprint_None:
  "fp b = None \<Longrightarrow>
     chooseFingerprint b f r w =
       (let n = fingerprintSize (fac_readerConfig (factory b));
            w1 = record_call (CallFingerprintRead (Name f) n) w
        in if readFails f then (Inl IOError, w1)
           else (Inr (r\<lparr>Fingerprint := Some (length (fingerprints w))\<rparr>),
                 w1\<lparr>fingerprints := fingerprints w @ [take n (contents f)]\<rparr>))"
  by (simp add: chooseFingerprint_def newFingerprint_def fingerprint_New_def allocFingerprint_def
        returnM_def bindM_def Let_def)

lemma chooseFingerprint_maps:
  "chooseFingerprint b f r w = (res, w') \<Longrightarrow> attrMaps w' = attrMaps w"
  by (cases "fp b") (auto simp: chooseFingerprint_Some chooseFingerprint_None Let_def split: if_splits)

lemma chooseFingerprint_trace:
  "chooseFingerprint b f r w = (res, w') \<Longrightarrow>
     (\<And>n k. fp b = None \<Longrightarrow> P (CallFingerprintRead n k)) \<Longrightarrow> traceExt P w w'"
  by (cases "fp b")
     (auto simp: chooseFingerprint_Some chooseFingerprint_None Let_def traceExt_def split: if_splits)

lemma bindFile_Inr:
  assumes "bindFile env b f r w = (Inr r', w')"
  shows "r' = r\<lparr>r_file := Some f, loggerPath := Some (Name f), FileAttributes := fileAttributes b\<rparr>"
proof -
  obtain resolved w1 where rs: "resolveSymlinks env (Name f) w = (resolved, w1)" by force
  obtain absPath w2 where ra: "resolveAbs env resolved w1 = (absPath, w2)" by force
  from assms show ?thesis
    unfolding bindFile_eq[OF rs ra] by (auto simp: bindM_Inr returnM_eq)
qed

lemma seekStart_Inr:
  "seekStart b r w = (Inr r', w') \<Longrightarrow> r_file r = Some f \<Longrightarrow>
     r' = (if fromBeginning (factory b) then r else r\<lparr>Offset := int (length (contents f))\<rparr>)"
  by (auto simp: seekStart_def offsetToEnd_eq returnM_def split: if_splits)

lemma chooseFingerprint_Inr:
  "chooseFingerprint b f r w = (Inr r', w') \<Longrightarrow>
     (\<exists>p. r' = r\<lparr>Fingerprint := Some p\<rparr> \<and> (case fp b of Some q \<Rightarrow> p = q \<and> w' = w
        | None \<Rightarrow> p = length (fingerprints w) \<and> \<not> readFails f \<and>
            fingerprints w' = fingerprints w @
               [take (fingerprintSize (fac_readerConfig (factory b))) (contents f)]))"
  by (cases "fp b")
     (auto simp: chooseFingerprint_Some chooseFingerprint_None Let_def split: if_splits)

lemma choosePhase_Inr_fields:
  assumes "choosePhase env b r w = (Inr r', w')"
  shows "Offset r' = Offset r \<and> HeaderFinalized r' = HeaderFinalized r \<and>
     FileAttributes r' = FileAttributes r \<and> lineSplitFunc r' = lineSplitFunc r \<and>
     encoding r' = encoding r \<and> r_file r' = r_file r \<and> Fingerprint r' = Fingerprint r \<and>
     r_readerConfig r' = r_readerConfig r \<and> r_headerSettings r' = r_headerSettings r \<and>
     loggerPath r' = loggerPath r"
proof (cases "fac_headerSettings (factory b) = None \<or> headerFinalized b")
  case True
  with assms show ?thesis by (auto simp: choosePhase_normal normalPhase_def)
next
  case False
  then obtain hs where "fac_headerSettings (factory b) = Some hs" "\<not> headerFinalized b" by auto
  with assms show ?thesis by (auto simp: choosePhase_header dest!: headerPhase_Inr)
qed

text \<open>A successful build, stage by stage.\<close>

lemma build_Inr_stages:
  assumes "build env b w = (Inr r, w')"
  shows "\<exists>s enc r3 w3.
     (case b_splitFunc b of Some t \<Rightarrow> s = t
      | None \<Rightarrow> splitterFactory (factory b) (maxLogSize (fac_readerConfig (factory b))) = Inr s) \<and>
     encodingConfig (factory b) = Inr enc \<and>
     choosePhase env b ((initReader b)\<lparr>lineSplitFunc := Some s, encoding := Some enc\<rparr>) w
       = (Inr r3, w3) \<and>
     (case b_file b of
        None \<Rightarrow> r = r3\<lparr>loggerPath := Some ''uninitialized''\<rparr> \<and> w' = w3
      | Some f \<Rightarrow> (\<exists>r4 w4 r5 w5. bindFile env b f r3 w3 = (Inr r4, w4) \<and>
           seekStart b r4 w4 = (Inr r5, w5) \<and> chooseFingerprint b f r5 w5 = (Inr r, w')))"
proof -
  from assms obtain r1 w1 r2 w2 r3 w3 where
    1: "chooseLineSplitFunc b (initReader b) w = (Inr r1, w1)" and
    2: "buildEncoding b r1 w1 = (Inr r2, w2)" and
    3: "choosePhase env b r2 w2 = (Inr r3, w3)" and
    4: "(case b_file b of
         None \<Rightarrow> returnM (r3\<lparr>loggerPath := Some ''uninitialized''\<rparr>)
       | Some f \<Rightarrow>
           bindM (bindFile env b f r3) (\<lambda>r.
           bindM (seekStart b r) (\<lambda>r.
           chooseFingerprint b f r))) w3 = (Inr r, w')"
    unfolding build_def bindM_Inr by blast
  from 1 obtain s where s: "w1 = w" "r1 = (initReader b)\<lparr>lineSplitFunc := Some s\<rparr>"
    "(case b_splitFunc b of Some t \<Rightarrow> s = t
      | None \<Rightarrow> splitterFactory (factory b) (maxLogSize (fac_readerConfig (factory b))) = Inr s)"
    by (auto simp: chooseLineSplitFunc_def split: option.splits sum.splits)
  from 2 obtain enc where e: "w2 = w1" "r2 = r1\<lparr>encoding := Some enc\<rparr>"
    "encodingConfig (factory b) = Inr enc"
    by (auto simp: buildEncoding_def split: sum.splits)
  from 4 have "(case b_file b of
        None \<Rightarrow> r = r3\<lparr>loggerPath := Some ''uninitialized''\<rparr> \<and> w' = w3
      | Some f \<Rightarrow> (\<exists>r4 w4 r5 w5. bindFile env b f r3 w3 = (Inr r4, w4) \<and>
           seekStart b r4 w4 = (Inr r5, w5) \<and> chooseFingerprint b f r5 w5 = (Inr r, w')))"
    by (auto simp: bindM_Inr returnM_eq split: option.splits)
  with s e 3 show ?thesis by auto
qed

text \<open>Which calls a build makes, whatever its result.\<close>

lemma stepRel_bind_trace:
  "stepRel (traceExt P) m \<Longrightarrow> (\<And>x. stepRel (traceExt P) (k x)) \<Longrightarrow>
     stepRel (traceExt P) (bindM m k)"
  by (rule stepRel_bind) (rule traceExt_trans)

lemma build_trace:
  assumes bd: "build env b w = (res, w')"
    and ph: "\<And>e. fac_headerSettings (factory b) \<noteq> None \<Longrightarrow> \<not> headerFinalized b \<Longrightarrow>
               isPipelineCall e \<Longrightarrow> P e"
    and rv: "\<And>e. b_file b \<noteq> None \<Longrightarrow> isResolveEvent e \<Longrightarrow> P e"
    and st: "\<And>n. b_file b \<noteq> None \<Longrightarrow> \<not> fromBeginning (factory b) \<Longrightarrow> P (CallStat n)"
    and fr: "\<And>n k. b_file b \<noteq> None \<Longrightarrow> fp b = None \<Longrightarrow> P (CallFingerprintRead n k)"
  shows "traceExt P w w'"
proof -
  have 1: "\<And>r. stepRel (traceExt P) (chooseLineSplitFunc b r)"
    unfolding stepRel_def by (auto dest: chooseLineSplitFunc_cases intro: traceExt_refl)
  have 2: "\<And>r. stepRel (traceExt P) (buildEncoding b r)"
    unfolding stepRel_def by (auto dest: buildEncoding_cases intro: traceExt_refl)
  have 3: "\<And>r. stepRel (traceExt P) (choosePhase env b r)"
    unfolding stepRel_def using ph by (blast intro: choosePhase_trace)
  have 4: "\<And>r. stepRel (traceExt P)
     (case b_file b of
         None \<Rightarrow> returnM (r\<lparr>loggerPath := Some ''uninitialized''\<rparr>)
       | Some f \<Rightarrow>
           bindM (bindFile env b f r) (\<lambda>r.
           bindM (seekStart b r) (\<lambda>r.
           chooseFingerprint b f r)))"
  proof -
    fix r
    show "stepRel (traceExt P)
     (case b_file b of
         None \<Rightarrow> returnM (r\<lparr>loggerPath := Some ''uninitialized''\<rparr>)
       | Some f \<Rightarrow>
           bindM (bindFile env b f r) (\<lambda>r.
           bindM (seekStart b r) (\<lambda>r.
           chooseFingerprint b f r)))"
    proof (cases "b_file b")
      case None
      then show ?thesis by (simp add: stepRel_return traceExt_refl)
    next
      case (Some f)
      have a: "\<And>r. stepRel (traceExt P) (bindFile env b f r)"
        unfolding stepRel_def using rv Some by (blast intro: bindFile_trace)
      have b: "\<And>r. stepRel (traceExt P) (seekStart b r)"
        unfolding stepRel_def using st Some by (blast intro: seekStart_trace)
      have c: "\<And>r. stepRel (traceExt P) (chooseFingerprint b f r)"
        unfolding stepRel_def using fr Some by (blast intro: chooseFingerprint_trace)
      have "stepRel (traceExt P)
          (bindM (bindFile env b f r) (\<lambda>r.
           bindM (seekStart b r) (\<lambda>r.
           chooseFingerprint b f r)))"
        by (intro stepRel_bind_trace a b c)
      then show ?thesis by (simp add: Some)
    qed
  qed
  have "stepRel (traceExt P) (build env b)"
    unfolding build_def by (intro stepRel_bind_trace 1 2 3 4)
  then show ?thesis using bd by (rule stepRelD)
qed

text \<open>What a build does to the store, whatever its result.\<close>

lemma storeFrame_refl: "storeFrame b u u"
  by (simp add: storeFrame_def mapsFrame_refl)

lemma storeFrame_trans: "storeFrame b x y \<Longrightarrow> storeFrame b y z \<Longrightarrow> storeFrame b x z"
  unfolding storeFrame_def by (auto intro: mapsFrame_trans)

lemma storeFrame_same:
  "attrMaps u' = attrMaps u \<Longrightarrow> fingerprints u' = fingerprints u \<Longrightarrow> storeFrame b u u'"
  by (simp add: storeFrame_def mapsFrame_same)

lemma stepRel_bind_store:
  "stepRel (storeFrame b) m \<Longrightarrow> (\<And>x. stepRel (storeFrame b) (k x)) \<Longrightarrow>
     stepRel (storeFrame b) (bindM m k)"
  by (rule stepRel_bind) (rule storeFrame_trans)

lemma build_store:
  assumes bd: "build env b w = (res, w')"
  shows "storeFrame b w w'"
proof -
  have 1: "\<And>r. stepRel (storeFrame b) (chooseLineSplitFunc b r)"
    unfolding stepRel_def by (auto dest: chooseLineSplitFunc_cases intro: storeFrame_refl)
  have 2: "\<And>r. stepRel (storeFrame b) (buildEncoding b r)"
    unfolding stepRel_def by (auto dest: buildEncoding_cases intro: storeFrame_refl)
  have 3: "\<And>r. stepRel (storeFrame b) (choosePhase env b r)"
    unfolding stepRel_def by (auto dest: choosePhase_store intro: storeFrame_same)
  have 4: "\<And>r. stepRel (storeFrame b)
     (case b_file b of
         None \<Rightarrow> returnM (r\<lparr>loggerPath := Some ''uninitialized''\<rparr>)
       | Some f \<Rightarrow>
           bindM (bindFile env b f r) (\<lambda>r.
           bindM (seekStart b r) (\<lambda>r.
           chooseFingerprint b f r)))"
  proof -
    fix r
    show "stepRel (storeFrame b)
     (case b_file b of
         None \<Rightarrow> returnM (r\<lparr>loggerPath := Some ''uninitialized''\<rparr>)
       | Some f \<Rightarrow>
           bindM (bindFile env b f r) (\<lambda>r.
           bindM (seekStart b r) (\<lambda>r.
           chooseFingerprint b f r)))"
    proof (cases "b_file b")
      case None
      then show ?thesis by (simp add: stepRel_return storeFrame_refl)
    next
      case (Some f)
      have a: "\<And>r. stepRel (storeFrame b) (bindFile env b f r)"
        unfolding stepRel_def storeFrame_def using Some by (auto dest: bindFile_frame)
      have b: "\<And>r. stepRel (storeFrame b) (seekStart b r)"
        unfolding stepRel_def by (auto dest: seekStart_store intro: storeFrame_same)
      have c: "\<And>r. stepRel (storeFrame b) (chooseFingerprint b f r)"
        unfolding stepRel_def storeFrame_def using Some
        by (auto simp: chooseFingerprint_Some dest: chooseFingerprint_maps
                 intro: mapsFrame_same mapsFrame_refl)
      have "stepRel (storeFrame b)
          (bindM (bindFile env b f r) (\<lambda>r.
           bindM (seekStart b r) (\<lambda>r.
           chooseFingerprint b f r)))"
        by (intro stepRel_bind_store a b c)
      then show ?thesis by (simp add: Some)
    qed
  qed
  have "stepRel (storeFrame b) (build env b)"
    unfolding build_def by (intro stepRel_bind_store 1 2 3 4)
  then show ?thesis using bd by (rule stepRelD)
qed

subsection \<open>The constructors as builds\<close>

lemma traceExt_callsDuring:
  "traceExt P w w' \<Longrightarrow> trace w' = trace w @ callsDuring w w' \<and> (\<forall>e\<in>set (callsDuring w w'). P e)"
  by (auto simp: traceExt_def callsDuring_def)

lemma traceExt_filter:
  "traceExt (\<lambda>e. \<not> P e) w w' \<Longrightarrow> filter P (callsDuring w w') = []"
  by (auto simp: traceExt_def callsDuring_def filter_empty_conv)

lemma newReaderBuilder_eq: "newReaderBuilder f w = (Inr (freshBuilder f w), withEmptyMap w)"
  by (simp add: newReaderBuilder_def allocMap_def bindM_def returnM_def freshBuilder_def
        withEmptyMap_def)

lemma newReader_eq:
  "newReader env f fl p w =
     build env ((freshBuilder f w)\<lparr>b_file := fl, fp := p\<rparr>) (withEmptyMap w)"
  by (simp add: newReader_def newReaderBuilder_eq bindM_def withFile_def withFingerprint_def)

lemma unsafeReader_eq: "unsafeReader env f w = build env (freshBuilder f w) (withEmptyMap w)"
  by (simp add: unsafeReader_def newReaderBuilder_eq bindM_def)

lemma copy_nil:
  "Fingerprint old = None \<Longrightarrow>
     copy env f old newFile w = (Inl (RuntimePanic ''nil pointer dereference''), withEmptyMap w)"
  by (simp add: copy_def newReaderBuilder_eq bindM_def fingerprint_Copy_def)

lemma copy_eq:
  "Fingerprint old = Some a \<Longrightarrow>
     copy env f old newFile w = build env (copyBuilder f old newFile w) (copyWorld old a w)"
  by (cases "FileAttributes old")
     (simp_all add: copy_def newReaderBuilder_eq bindM_def fingerprint_Copy_def MapCopy_def
        allocFingerprint_def allocMap_def withFile_def withFingerprint_def withOffset_def
        withSplitterFunc_def withFileAttributes_def withHeaderFinalized_def freshBuilder_def
        withEmptyMap_def copyBuilder_def copyWorld_def)

lemma withEmptyMap_fields [simp]:
  "trace (withEmptyMap w) = trace w" "fingerprints (withEmptyMap w) = fingerprints w"
  "attrMaps (withEmptyMap w) = attrMaps w @ [Map.empty]"
  by (simp_all add: withEmptyMap_def)

lemma copyWorld_fields [simp]:
  "trace (copyWorld old a w) = trace w"
  "fingerprints (copyWorld old a w) = fingerprints w @ [fingerprints w ! a]"
  by (simp_all add: copyWorld_def)

subsection \<open>The Reader a build returns\<close>

lemma event_kinds [simp]:
  "isResolveEvent e \<Longrightarrow> \<not> isPipelineCall e"
  "isPipelineCall e \<Longrightarrow> \<not> isFileCall e"
  "isPipelineCall e \<Longrightarrow> \<not> isFingerprintRead e"
  "isResolveEvent e \<Longrightarrow> \<not> isFingerprintRead e"
  "isPipelineCall e \<Longrightarrow> e \<noteq> CallEmit"
  "isResolveEvent e \<Longrightarrow> e \<noteq> CallEmit"
  by (cases e; simp)+

lemma build_Inr_fields:
  assumes "build env b w = (Inr r, w')"
  shows "HeaderFinalized r = headerFinalized b \<and>
     r_readerConfig r = fac_readerConfig (factory b) \<and>
     r_headerSettings r = fac_headerSettings (factory b) \<and>
     r_file r = b_file b \<and>
     (b_file b = None \<longrightarrow> Fingerprint r = None \<and> Offset r = offset b \<and>
        FileAttributes r = fileAttributes b) \<and>
     (\<forall>f. b_file b = Some f \<longrightarrow> FileAttributes r = fileAttributes b \<and>
        Offset r = (if fromBeginning (factory b) then offset b else int (length (contents f))))"
proof -
  from build_Inr_stages[OF assms] obtain s enc r3 w3 where
    3: "choosePhase env b ((initReader b)\<lparr>lineSplitFunc := Some s, encoding := Some enc\<rparr>) w
       = (Inr r3, w3)" and
    4: "(case b_file b of
        None \<Rightarrow> r = r3\<lparr>loggerPath := Some ''uninitialized''\<rparr> \<and> w' = w3
      | Some f \<Rightarrow> (\<exists>r4 w4 r5 w5. bindFile env b f r3 w3 = (Inr r4, w4) \<and>
           seekStart b r4 w4 = (Inr r5, w5) \<and> chooseFingerprint b f r5 w5 = (Inr r, w')))"
    by blast
  note f3 = choosePhase_Inr_fields[OF 3]
  show ?thesis
  proof (cases "b_file b")
    case None
    with 4 f3 show ?thesis by (simp add: initReader_def)
  next
    case (Some f)
    with 4 obtain r4 w4 r5 w5 where a: "bindFile env b f r3 w3 = (Inr r4, w4)"
      and b: "seekStart b r4 w4 = (Inr r5, w5)" and c: "chooseFingerprint b f r5 w5 = (Inr r, w')"
      by auto
    from bindFile_Inr[OF a] have r4: "r4 = r3\<lparr>r_file := Some f, loggerPath := Some (Name f),
         FileAttributes := fileAttributes b\<rparr>" .
    then have "r_file r4 = Some f" by simp
    from seekStart_Inr[OF b this] have r5:
      "r5 = (if fromBeginning (factory b) then r4 else r4\<lparr>Offset := int (length (contents f))\<rparr>)" .
    from chooseFingerprint_Inr[OF c] obtain p where r: "r = r5\<lparr>Fingerprint := Some p\<rparr>" by blast
    from r r5 r4 f3 Some show ?thesis by (simp add: initReader_def)
  qed
qed

lemma build_Inr_phase:
  assumes "build env b w = (Inr r, w')"
  shows "if fac_headerSettings (factory b) = None \<or> headerFinalized b
         then inNormalPhase r else inHeaderPhase env r"
proof -
  from build_Inr_stages[OF assms] obtain s enc r3 w3 where
    3: "choosePhase env b ((initReader b)\<lparr>lineSplitFunc := Some s, encoding := Some enc\<rparr>) w
       = (Inr r3, w3)" and
    4: "(case b_file b of
        None \<Rightarrow> r = r3\<lparr>loggerPath := Some ''uninitialized''\<rparr> \<and> w' = w3
      | Some f \<Rightarrow> (\<exists>r4 w4 r5 w5. bindFile env b f r3 w3 = (Inr r4, w4) \<and>
           seekStart b r4 w4 = (Inr r5, w5) \<and> chooseFingerprint b f r5 w5 = (Inr r, w')))"
    by blast
  have keep: "\<exists>lp fa off fpr fl. r = r3\<lparr>loggerPath := lp, FileAttributes := fa, Offset := off,
       Fingerprint := fpr, r_file := fl\<rparr>"
  proof (cases "b_file b")
    case None
    with 4 have "r = r3\<lparr>loggerPath := Some ''uninitialized'', FileAttributes := FileAttributes r3,
       Offset := Offset r3, Fingerprint := Fingerprint r3, r_file := r_file r3\<rparr>" by simp
    then show ?thesis by blast
  next
    case (Some f)
    with 4 obtain r4 w4 r5 w5 where a: "bindFile env b f r3 w3 = (Inr r4, w4)"
      and b: "seekStart b r4 w4 = (Inr r5, w5)" and c: "chooseFingerprint b f r5 w5 = (Inr r, w')"
      by auto
    from bindFile_Inr[OF a] have r4: "r4 = r3\<lparr>r_file := Some f, loggerPath := Some (Name f),
         FileAttributes := fileAttributes b\<rparr>" .
    then have "r_file r4 = Some f" by simp
    from seekStart_Inr[OF b this] have r5:
      "r5 = (if fromBeginning (factory b) then r4 else r4\<lparr>Offset := int (length (contents f))\<rparr>)" .
    from chooseFingerprint_Inr[OF c] obtain p where r: "r = r5\<lparr>Fingerprint := Some p\<rparr>" by blast
    have "r = r3\<lparr>loggerPath := Some (Name f), FileAttributes := fileAttributes b,
       Offset := Offset r5, Fingerprint := Some p, r_file := Some f\<rparr>"
      using r r5 r4 by simp
    then show ?thesis by blast
  qed
  then obtain lp fa off fpr fl where r: "r = r3\<lparr>loggerPath := lp, FileAttributes := fa, Offset := off,
       Fingerprint := fpr, r_file := fl\<rparr>" by blast
  show ?thesis
  proof (cases "fac_headerSettings (factory b) = None \<or> headerFinalized b")
    case True
    with 3 r show ?thesis
      by (auto simp: choosePhase_normal normalPhase_def inNormalPhase_def initReader_def)
  next
    case False
    then obtain hs where hs: "fac_headerSettings (factory b) = Some hs" "\<not> headerFinalized b" by auto
    with 3 have "headerPhase env hs ((initReader b)\<lparr>lineSplitFunc := Some s, encoding := Some enc\<rparr>) w
       = (Inr r3, w3)" by (simp add: choosePhase_header)
    from headerPhase_Inr[OF this] r hs show ?thesis
      by (auto simp: inHeaderPhase_def initReader_def)
  qed
qed

lemma phases_exclusive: "inHeaderPhase env r \<Longrightarrow> \<not> inNormalPhase r"
  by (auto simp: inHeaderPhase_def inNormalPhase_def split: option.splits)

subsection \<open>Evaluation\<close>

lemmas model_defs =
  copy_def newReader_def unsafeReader_def build_def newReaderBuilder_def
  withFile_def withFingerprint_def withOffset_def withSplitterFunc_def
  withFileAttributes_def withHeaderFinalized_def
  initReader_def chooseLineSplitFunc_def buildEncoding_def choosePhase_def normalPhase_def
  headerPhase_def bindFile_def setFileAttributes_def setFileAttribute_def resolveSymlinks_def
  resolveAbs_def seekStart_def offsetToEnd_def chooseFingerprint_def newFingerprint_def
  fingerprint_New_def fingerprint_Copy_def MapCopy_def allocMap_def allocFingerprint_def
  mapAssign_def mapIndex_def mapDelete_def hasKey_def bindM_def returnM_def record_call_def
  logFileName_def logFilePath_def logFileNameResolved_def logFilePathResolved_def Let_def

lemmas example_defs =
  ex_cfg_def ex_header_def ex_factory_def ex_env_def ex_file_def ex_world_def ex_old_def
  ex_header_factory_def ex_end_factory_def ex_failing_env_def ex_builder_def

lemma run_collapse: "\<not> isl (fst x) \<Longrightarrow> x = (Inr (projr (fst x)), snd x)"
  by (cases x) (auto simp: isl_def)

subsection \<open>Offsets\<close>

text \<open>Where the successor made by \<open>copy\<close> on a file starts.\<close>

lemma copy_offset:
  assumes "copy env f old (Some fl) w = (Inr r, w')"
  shows "Offset r = (if fromBeginning f then Offset old else int (length (contents fl)))"
proof -
  from assms obtain a where fo: "Fingerprint old = Some a"
    by (cases "Fingerprint old") (auto simp: copy_nil)
  with assms have "build env (copyBuilder f old (Some fl) w) (copyWorld old a w) = (Inr r, w')"
    by (simp add: copy_eq)
  from build_Inr_fields[OF this] show ?thesis by (simp add: copyBuilder_def)
qed

text \<open>
  C1. The claim: for every Reader \<open>old\<close> and every new file handle, \<open>copy\<close> returns a
  successor whose Offset is \<open>old\<close>'s, whatever \<open>fromBeginning\<close> is. With
  \<open>fromBeginning = false\<close> it does not hold: \<open>copy\<close> hands \<open>old.Offset\<close> to the
  builder, and line 193 of \<open>build\<close> then seeks to the end of the new file. Here the
  Reader was at offset 100, the new file holds 10 bytes, and the successor starts at 10.
\<close>

theorem copy_from_end_discards_offset:
  "map_sum id Offset (fst (copy ex_env ex_end_factory ex_old (Some ex_file) ex_world)) = Inr 10
   \<and> Offset ex_old = 100"
  by (simp add: model_defs example_defs)

subsection \<open>The header phase\<close>

lemma headerPhase_fail_build:
  "pipelineBuild env (metadataOperators hs) = Inl e \<Longrightarrow>
     headerPhase env hs r w =
       (Inl (Wrapped ''failed to build pipeline'' e),
        record_call (CallPipelineBuild (metadataOperators hs)) w)"
  by (simp add: headerPhase_def Let_def)

lemma headerPhase_fail_start:
  "pipelineBuild env (metadataOperators hs) = Inr p \<Longrightarrow> pipelineStart env p = Some e \<Longrightarrow>
     headerPhase env hs r w =
       (Inl (Wrapped ''failed to start header pipeline'' e),
        record_call (CallPipelineStart p)
          (record_call (CallPipelineBuild (metadataOperators hs)) w))"
  by (simp add: headerPhase_def Let_def)

lemma build_early_failure: "\<not> earlyStagesOk b \<Longrightarrow> isl (fst (build env b w))"
  by (auto simp: earlyStagesOk_def build_def bindM_def chooseLineSplitFunc_def buildEncoding_def
           isl_def split: option.splits sum.splits)

lemma build_phase_failure:
  assumes "earlyStagesOk b"
    and "\<And>r. choosePhase env b r w = (Inl e, w1)"
  shows "build env b w = (Inl e, w1)"
  using assms
  by (auto simp: earlyStagesOk_def build_def bindM_def chooseLineSplitFunc_def buildEncoding_def
           isl_def split: option.splits sum.splits)

text \<open>
  C2. Header finalization is one-shot. A successor that \<open>copy\<close> makes of a Reader with
  \<open>HeaderFinalized\<close> set has it set too, is in the normal phase, and no pipeline was
  built or started on the way. Any build with \<open>headerFinalized\<close> set, or without header
  settings, makes no pipeline call, whether it succeeds or fails, and the Reader it
  returns uses the line split function and the emit function.
\<close>

theorem header_finalization_one_shot:
  "(HeaderFinalized old \<and> copy env f old newFile w = (Inr r, w') \<longrightarrow>
      HeaderFinalized r \<and> inNormalPhase r \<and> filter isPipelineCall (callsDuring w w') = []) \<and>
   ((headerFinalized b \<or> fac_headerSettings (factory b) = None) \<and> build env b u = (res, u') \<longrightarrow>
      filter isPipelineCall (callsDuring u u') = [] \<and>
      (\<forall>r'. res = Inr r' \<longrightarrow> HeaderFinalized r' = headerFinalized b \<and> inNormalPhase r'))"
proof (intro conjI impI)
  assume a: "HeaderFinalized old \<and> copy env f old newFile w = (Inr r, w')"
  then obtain fa where fa: "Fingerprint old = Some fa"
    by (cases "Fingerprint old") (auto simp: copy_nil)
  let ?b = "copyBuilder f old newFile w" and ?w = "copyWorld old fa w"
  from a fa have bd: "build env ?b ?w = (Inr r, w')" by (simp add: copy_eq)
  have fin: "headerFinalized ?b" using a by (simp add: copyBuilder_def)
  from build_Inr_fields[OF bd] fin show "HeaderFinalized r" by simp
  from build_Inr_phase[OF bd] fin show "inNormalPhase r" by simp
  have "traceExt (\<lambda>e. \<not> isPipelineCall e) ?w w'"
    using bd by (rule build_trace) (use fin in auto)
  then have "filter isPipelineCall (callsDuring ?w w') = []" by (rule traceExt_filter)
  then show "filter isPipelineCall (callsDuring w w') = []" by (simp add: callsDuring_def)
next
  assume a: "(headerFinalized b \<or> fac_headerSettings (factory b) = None) \<and> build env b u = (res, u')"
  then have bd: "build env b u = (res, u')" by simp
  have "traceExt (\<lambda>e. \<not> isPipelineCall e) u u'"
    using bd by (rule build_trace) (use a in auto)
  then show "filter isPipelineCall (callsDuring u u') = []" by (rule traceExt_filter)
  show "\<forall>r'. res = Inr r' \<longrightarrow> HeaderFinalized r' = headerFinalized b \<and> inNormalPhase r'"
  proof (intro allI impI)
    fix r' assume "res = Inr r'"
    with bd have bd': "build env b u = (Inr r', u')" by simp
    from build_Inr_fields[OF bd'] build_Inr_phase[OF bd'] a
    show "HeaderFinalized r' = headerFinalized b \<and> inNormalPhase r'" by auto
  qed
qed

lemma build_Inr_header_calls:
  assumes bd: "build env b w = (Inr r, w')"
    and hs: "fac_headerSettings (factory b) = Some hs" "\<not> headerFinalized b"
  shows "\<exists>p. headerPipeline r = Some p \<and>
           filter isPipelineCall (callsDuring w w') =
             [CallPipelineBuild (metadataOperators hs), CallPipelineStart p]"
proof -
  from build_Inr_stages[OF bd] obtain s enc r3 w3 where
    3: "choosePhase env b ((initReader b)\<lparr>lineSplitFunc := Some s, encoding := Some enc\<rparr>) w
       = (Inr r3, w3)" and
    4: "(case b_file b of
        None \<Rightarrow> r = r3\<lparr>loggerPath := Some ''uninitialized''\<rparr> \<and> w' = w3
      | Some f \<Rightarrow> (\<exists>r4 w4 r5 w5. bindFile env b f r3 w3 = (Inr r4, w4) \<and>
           seekStart b r4 w4 = (Inr r5, w5) \<and> chooseFingerprint b f r5 w5 = (Inr r, w')))"
    by blast
  from 3 hs have "headerPhase env hs ((initReader b)\<lparr>lineSplitFunc := Some s, encoding := Some enc\<rparr>) w
       = (Inr r3, w3)" by (simp add: choosePhase_header)
  from headerPhase_Inr[OF this] obtain p where p: "headerPipeline r3 = Some p"
    "trace w3 = trace w @ [CallPipelineBuild (metadataOperators hs), CallPipelineStart p]"
    by auto
  have tail: "headerPipeline r = headerPipeline r3 \<and> traceExt (\<lambda>e. \<not> isPipelineCall e) w3 w'"
  proof (cases "b_file b")
    case None
    with 4 show ?thesis by (simp add: traceExt_refl)
  next
    case (Some f)
    with 4 obtain r4 w4 r5 w5 where a: "bindFile env b f r3 w3 = (Inr r4, w4)"
      and b: "seekStart b r4 w4 = (Inr r5, w5)" and c: "chooseFingerprint b f r5 w5 = (Inr r, w')"
      by auto
    from bindFile_Inr[OF a] have r4: "r4 = r3\<lparr>r_file := Some f, loggerPath := Some (Name f),
         FileAttributes := fileAttributes b\<rparr>" .
    then have "r_file r4 = Some f" by simp
    from seekStart_Inr[OF b this] have r5:
      "r5 = (if fromBeginning (factory b) then r4 else r4\<lparr>Offset := int (length (contents f))\<rparr>)" .
    from chooseFingerprint_Inr[OF c] obtain q where r: "r = r5\<lparr>Fingerprint := Some q\<rparr>" by blast
    have "traceExt (\<lambda>e. \<not> isPipelineCall e) w3 w4" using a by (rule bindFile_trace) simp
    moreover have "traceExt (\<lambda>e. \<not> isPipelineCall e) w4 w5" using b by (rule seekStart_trace) simp
    moreover have "traceExt (\<lambda>e. \<not> isPipelineCall e) w5 w'"
      using c by (rule chooseFingerprint_trace) simp
    ultimately have "traceExt (\<lambda>e. \<not> isPipelineCall e) w3 w'" by (blast intro: traceExt_trans)
    with r r5 r4 show ?thesis by simp
  qed
  then obtain evs where "trace w' = trace w3 @ evs" "\<forall>e\<in>set evs. \<not> isPipelineCall e"
    by (auto simp: traceExt_def)
  with p have "filter isPipelineCall (callsDuring w w') =
             [CallPipelineBuild (metadataOperators hs), CallPipelineStart p]"
    by (simp add: callsDuring_def filter_empty_conv)
  with tail p show ?thesis by simp
qed

text \<open>
  C3. A Reader that \<open>build\<close> returns is in the header phase exactly when header
  settings are configured and \<open>headerFinalized\<close> is false: then the pipeline was built
  and started, in this order and once. In every other case it is in the normal phase and
  no pipeline call was made.
\<close>

theorem build_starting_phase:
  "build env b w = (Inr r, w') \<Longrightarrow>
     (inHeaderPhase env r \<longleftrightarrow> fac_headerSettings (factory b) \<noteq> None \<and> \<not> headerFinalized b) \<and>
     (inNormalPhase r \<longleftrightarrow> \<not> (fac_headerSettings (factory b) \<noteq> None \<and> \<not> headerFinalized b)) \<and>
     (\<forall>hs. fac_headerSettings (factory b) = Some hs \<and> \<not> headerFinalized b \<longrightarrow>
        (\<exists>p. headerPipeline r = Some p \<and>
           filter isPipelineCall (callsDuring w w') =
             [CallPipelineBuild (metadataOperators hs), CallPipelineStart p])) \<and>
     (fac_headerSettings (factory b) = None \<or> headerFinalized b \<longrightarrow>
        filter isPipelineCall (callsDuring w w') = [])"
proof -
  assume bd: "build env b w = (Inr r, w')"
  note ph = build_Inr_phase[OF bd]
  have 1: "inHeaderPhase env r \<longleftrightarrow> fac_headerSettings (factory b) \<noteq> None \<and> \<not> headerFinalized b"
    using ph phases_exclusive[of env r] by (auto split: if_splits)
  have 2: "inNormalPhase r \<longleftrightarrow> \<not> (fac_headerSettings (factory b) \<noteq> None \<and> \<not> headerFinalized b)"
    using ph phases_exclusive[of env r] by (auto split: if_splits)
  have 3: "\<forall>hs. fac_headerSettings (factory b) = Some hs \<and> \<not> headerFinalized b \<longrightarrow>
        (\<exists>p. headerPipeline r = Some p \<and>
           filter isPipelineCall (callsDuring w w') =
             [CallPipelineBuild (metadataOperators hs), CallPipelineStart p])"
    using build_Inr_header_calls[OF bd] by blast
  have 4: "fac_headerSettings (factory b) = None \<or> headerFinalized b \<longrightarrow>
        filter isPipelineCall (callsDuring w w') = []"
  proof
    assume a: "fac_headerSettings (factory b) = None \<or> headerFinalized b"
    have "traceExt (\<lambda>e. \<not> isPipelineCall e) w w'"
      using bd by (rule build_trace) (use a in auto)
    then show "filter isPipelineCall (callsDuring w w') = []" by (rule traceExt_filter)
  qed
  from 1 2 3 4 show ?thesis by blast
qed

text \<open>
  C4. With header settings and \<open>headerFinalized\<close> false, a pipeline whose \<open>Build\<close> or
  \<open>Start\<close> fails makes \<open>build\<close> return an error and no Reader; when the split
  function and the encoding were obtained, the error is the pipeline's, wrapped with the
  message of line 140 or of line 143.
\<close>

theorem pipeline_failure_fails_build:
  assumes "fac_headerSettings (factory b) = Some hs" and "\<not> headerFinalized b"
    and "pipelineBuild env (metadataOperators hs) = Inl e \<or>
         (\<exists>p. pipelineBuild env (metadataOperators hs) = Inr p \<and> pipelineStart env p = Some e)"
  shows "isl (fst (build env b w)) \<and>
     (earlyStagesOk b \<longrightarrow>
        fst (build env b w) =
          Inl (Wrapped (if isl (pipelineBuild env (metadataOperators hs))
                        then ''failed to build pipeline''
                        else ''failed to start header pipeline'') e))"
proof (cases "earlyStagesOk b")
  case False
  then show ?thesis by (simp add: build_early_failure)
next
  case True
  from assms(3) show ?thesis
  proof
    assume f: "pipelineBuild env (metadataOperators hs) = Inl e"
    have "build env b w = (Inl (Wrapped ''failed to build pipeline'' e),
        record_call (CallPipelineBuild (metadataOperators hs)) w)"
      using True by (rule build_phase_failure)
         (simp add: choosePhase_header[OF assms(1,2)] headerPhase_fail_build[OF f])
    with f show ?thesis by simp
  next
    assume "\<exists>p. pipelineBuild env (metadataOperators hs) = Inr p \<and> pipelineStart env p = Some e"
    then obtain p where f: "pipelineBuild env (metadataOperators hs) = Inr p"
      "pipelineStart env p = Some e" by blast
    have "build env b w = (Inl (Wrapped ''failed to start header pipeline'' e),
        record_call (CallPipelineStart p) (record_call (CallPipelineBuild (metadataOperators hs)) w))"
      using True by (rule build_phase_failure)
         (simp add: choosePhase_header[OF assms(1,2)] headerPhase_fail_start[OF f])
    with f show ?thesis by simp
  qed
qed

text \<open>The same on the concrete configuration.\<close>

theorem header_finalization_one_shot_witness:
  "HeaderFinalized ex_old \<and>
   copy ex_env ex_header_factory ex_old (Some ex_file) ex_world =
     (Inr (projr (fst (copy ex_env ex_header_factory ex_old (Some ex_file) ex_world))),
      snd (copy ex_env ex_header_factory ex_old (Some ex_file) ex_world)) \<and>
   HeaderFinalized (projr (fst (copy ex_env ex_header_factory ex_old (Some ex_file) ex_world))) \<and>
   inNormalPhase (projr (fst (copy ex_env ex_header_factory ex_old (Some ex_file) ex_world))) \<and>
   headerFinalized (ex_builder\<lparr>headerFinalized := True\<rparr>) \<and>
   filter isPipelineCall
     (callsDuring ex_world (snd (build ex_env (ex_builder\<lparr>headerFinalized := True\<rparr>) ex_world))) = []"
proof -
  let ?c = "copy ex_env ex_header_factory ex_old (Some ex_file) ex_world"
  let ?b = "ex_builder\<lparr>headerFinalized := True\<rparr>"
  have h1: "HeaderFinalized ex_old" by (simp add: ex_old_def)
  have h2: "?c = (Inr (projr (fst ?c)), snd ?c)"
    by (rule run_collapse) (simp add: model_defs example_defs)
  have h3: "headerFinalized ?b" by simp
  have h4: "build ex_env ?b ex_world = (fst (build ex_env ?b ex_world), snd (build ex_env ?b ex_world))"
    by simp
  show ?thesis
    using header_finalization_one_shot[of ex_old ex_env ex_header_factory "Some ex_file" ex_world
        "projr (fst ?c)" "snd ?c" ?b ex_world "fst (build ex_env ?b ex_world)"
        "snd (build ex_env ?b ex_world)"] h1 h2 h3 h4
    by blast
qed

text \<open>A build that enters the header phase.\<close>

theorem build_starting_phase_witness:
  "build ex_env ex_builder ex_world =
     (Inr (projr (fst (build ex_env ex_builder ex_world))), snd (build ex_env ex_builder ex_world)) \<and>
   inHeaderPhase ex_env (projr (fst (build ex_env ex_builder ex_world))) \<and>
   headerPipeline (projr (fst (build ex_env ex_builder ex_world))) = Some 5 \<and>
   filter isPipelineCall (callsDuring ex_world (snd (build ex_env ex_builder ex_world))) =
     [CallPipelineBuild [11, 12], CallPipelineStart 5]"
proof -
  let ?x = "build ex_env ex_builder ex_world"
  have h: "?x = (Inr (projr (fst ?x)), snd ?x)"
    by (rule run_collapse) (simp add: model_defs example_defs)
  have hs: "fac_headerSettings (factory ex_builder) = Some ex_header \<and> \<not> headerFinalized ex_builder"
    by (simp add: example_defs)
  have p: "\<And>ops. pipelineBuild ex_env ops = Inr 5"
    by (simp add: ex_env_def)
  from build_starting_phase[OF h] hs obtain q where
    "inHeaderPhase ex_env (projr (fst ?x))" "headerPipeline (projr (fst ?x)) = Some q"
    "filter isPipelineCall (callsDuring ex_world (snd ?x)) =
       [CallPipelineBuild (metadataOperators ex_header), CallPipelineStart q]"
    by auto
  moreover from this have "q = 5" by (auto simp: inHeaderPhase_def p split: option.splits)
  ultimately show ?thesis using h by (simp add: ex_header_def)
qed

text \<open>A build whose pipeline names an unknown operator.\<close>

theorem pipeline_failure_fails_build_witness:
  "fac_headerSettings (factory ex_builder) = Some ex_header \<and>
   headerFinalized ex_builder = False \<and>
   pipelineBuild ex_failing_env (metadataOperators ex_header) =
     Inl (ExternalError ''unknown operator'') \<and>
   fst (build ex_failing_env ex_builder ex_world) =
     Inl (Wrapped ''failed to build pipeline'' (ExternalError ''unknown operator''))"
proof -
  have h1: "fac_headerSettings (factory ex_builder) = Some ex_header" by (simp add: example_defs)
  have h2: "\<not> headerFinalized ex_builder" by (simp add: example_defs)
  have h3: "pipelineBuild ex_failing_env (metadataOperators ex_header) =
     Inl (ExternalError ''unknown operator'')" by (simp add: example_defs)
  have ok: "earlyStagesOk ex_builder" by (simp add: earlyStagesOk_def example_defs)
  from pipeline_failure_fails_build[OF h1 h2 disjI1[OF h3], of ex_world] ok h1 h2 h3
  show ?thesis by simp
qed

subsection \<open>Fresh Readers\<close>

lemma build_no_emit:
  assumes "build env b w = (res, w')"
  shows "CallEmit \<notin> set (callsDuring w w')"
proof -
  have "traceExt (\<lambda>e. e \<noteq> CallEmit) w w'"
    using assms by (rule build_trace) simp_all
  then show ?thesis by (auto dest: traceExt_callsDuring)
qed

text \<open>
  C5. A fresh Reader built by \<open>newReader\<close> on a bound file starts at offset 0 when
  \<open>fromBeginning\<close> is set and at the file's current length when it is not; the emit
  function is not called during construction, whether it succeeds or fails.
\<close>

theorem newReader_start_offset:
  "newReader env f (Some fl) p w = (res, w') \<Longrightarrow>
     CallEmit \<notin> set (callsDuring w w') \<and>
     (\<forall>r. res = Inr r \<longrightarrow>
        (fromBeginning f \<longrightarrow> Offset r = 0) \<and>
        (\<not> fromBeginning f \<longrightarrow> Offset r = int (length (contents fl))))"
proof -
  assume a: "newReader env f (Some fl) p w = (res, w')"
  let ?b = "(freshBuilder f w)\<lparr>b_file := Some fl, fp := p\<rparr>"
  from a have bd: "build env ?b (withEmptyMap w) = (res, w')" by (simp add: newReader_eq)
  from build_no_emit[OF bd] have 1: "CallEmit \<notin> set (callsDuring w w')"
    by (simp add: callsDuring_def)
  have 2: "\<forall>r. res = Inr r \<longrightarrow>
        (fromBeginning f \<longrightarrow> Offset r = 0) \<and>
        (\<not> fromBeginning f \<longrightarrow> Offset r = int (length (contents fl)))"
  proof (intro allI impI)
    fix r assume "res = Inr r"
    with bd have "build env ?b (withEmptyMap w) = (Inr r, w')" by simp
    from build_Inr_fields[OF this]
    show "(fromBeginning f \<longrightarrow> Offset r = 0) \<and>
        (\<not> fromBeginning f \<longrightarrow> Offset r = int (length (contents fl)))"
      by (simp add: freshBuilder_def)
  qed
  from 1 2 show ?thesis by simp
qed

text \<open>One file of 10 bytes, read from the beginning and from the end.\<close>

theorem newReader_start_offset_witness:
  "Offset (projr (fst (newReader ex_env ex_factory (Some ex_file) None ex_world))) = 0 \<and>
   Offset (projr (fst (newReader ex_env ex_end_factory (Some ex_file) None ex_world))) = 10 \<and>
   fromBeginning ex_factory \<and> \<not> fromBeginning ex_end_factory \<and>
   \<not> isl (fst (newReader ex_env ex_factory (Some ex_file) None ex_world)) \<and>
   \<not> isl (fst (newReader ex_env ex_end_factory (Some ex_file) None ex_world)) \<and>
   CallEmit \<notin> set (callsDuring ex_world
      (snd (newReader ex_env ex_end_factory (Some ex_file) None ex_world)))"
proof -
  let ?x = "newReader ex_env ex_factory (Some ex_file) None ex_world"
  let ?y = "newReader ex_env ex_end_factory (Some ex_file) None ex_world"
  have nx: "\<not> isl (fst ?x)" by (simp add: model_defs example_defs)
  have ny: "\<not> isl (fst ?y)" by (simp add: model_defs example_defs)
  have fx: "fromBeginning ex_factory" "\<not> fromBeginning ex_end_factory"
    "length (contents ex_file) = 10"
    by (simp_all add: example_defs)
  from newReader_start_offset[OF run_collapse[OF nx] ] newReader_start_offset[OF run_collapse[OF ny] ]
    nx ny fx
  show ?thesis by simp
qed

subsection \<open>When build returns a Reader\<close>

lemma setFileAttribute_Some_ok: "fst (setFileAttribute included (Some a) k v w) = Inr ()"
  by (simp add: setFileAttribute_def mapAssign_def)

lemma setFileAttributes_Some_ok: "fst (setFileAttributes env cfg (Some a) name absPath w) = Inr ()"
proof -
  have s: "\<And>i k v u. \<exists>u'. setFileAttribute i (Some a) k v u = (Inr (), u')"
    by (metis setFileAttribute_Some_ok prod.collapse)
  obtain u1 where 1: "setFileAttribute (includeFileName cfg) (Some a) logFileName
      (filepathBase env name) w = (Inr (), u1)" using s by blast
  obtain u2 where 2: "setFileAttribute (includeFilePath cfg) (Some a) logFilePath name u1
      = (Inr (), u2)" using s by blast
  obtain u3 where 3: "setFileAttribute (includeFileNameResolved cfg) (Some a) logFileNameResolved
      (filepathBase env absPath) u2 = (Inr (), u3)" using s by blast
  show ?thesis
    by (simp add: setFileAttributes_def bindM_def 1 2 3 setFileAttribute_Some_ok)
qed

lemma bindFile_succeeds:
  "(\<exists>r' w'. bindFile env b f r w = (Inr r', w')) \<longleftrightarrow>
     fileAttributes b \<noteq> None \<or> \<not> anyIncluded (fac_readerConfig (factory b))"
proof -
  obtain resolved w1 where rs: "resolveSymlinks env (Name f) w = (resolved, w1)" by force
  obtain absPath w2 where ra: "resolveAbs env resolved w1 = (absPath, w2)" by force
  show ?thesis
  proof (cases "fileAttributes b")
    case None
    then show ?thesis by (simp add: bindFile_None[OF None rs ra] anyIncluded_def)
  next
    case (Some a)
    obtain u where "setFileAttributes env (fac_readerConfig (factory b)) (Some a) (Name f) absPath w2
       = (Inr (), u)"
      by (metis setFileAttributes_Some_ok prod.collapse)
    then show ?thesis by (simp add: bindFile_eq[OF rs ra] Some bindM_def returnM_def)
  qed
qed

lemma seekStart_succeeds:
  "r_file r = Some f \<Longrightarrow>
     (\<exists>r' w'. seekStart b r w = (Inr r', w')) \<longleftrightarrow> fromBeginning (factory b) \<or> \<not> statFails f"
  by (auto simp: seekStart_def offsetToEnd_eq returnM_def)

lemma chooseFingerprint_succeeds:
  "(\<exists>r' w'. chooseFingerprint b f r w = (Inr r', w')) \<longleftrightarrow> fp b \<noteq> None \<or> \<not> readFails f"
  by (cases "fp b") (auto simp: chooseFingerprint_Some chooseFingerprint_None Let_def)

lemma choosePhase_succeeds:
  "(\<exists>r' w'. choosePhase env b r w = (Inr r', w')) \<longleftrightarrow> phaseOk env b"
  by (auto simp: choosePhase_def phaseOk_def returnM_def headerPhase_def Let_def
           split: option.splits sum.splits)

lemma early_stages_succeed:
  "earlyStagesOk b \<longleftrightarrow>
     (\<exists>s enc.
        (case b_splitFunc b of Some t \<Rightarrow> s = t
         | None \<Rightarrow> splitterFactory (factory b) (maxLogSize (fac_readerConfig (factory b))) = Inr s) \<and>
        encodingConfig (factory b) = Inr enc)"
  by (cases "encodingConfig (factory b)";
      cases "splitterFactory (factory b) (maxLogSize (fac_readerConfig (factory b)))";
      cases "b_splitFunc b")
     (simp_all add: earlyStagesOk_def)

lemma build_from_stages:
  assumes "(case b_splitFunc b of Some t \<Rightarrow> s = t
         | None \<Rightarrow> splitterFactory (factory b) (maxLogSize (fac_readerConfig (factory b))) = Inr s)"
    and "encodingConfig (factory b) = Inr enc"
    and "choosePhase env b ((initReader b)\<lparr>lineSplitFunc := Some s, encoding := Some enc\<rparr>) w
       = (Inr r3, w3)"
  shows "build env b w =
     (case b_file b of
         None \<Rightarrow> returnM (r3\<lparr>loggerPath := Some ''uninitialized''\<rparr>)
       | Some f \<Rightarrow>
           bindM (bindFile env b f r3) (\<lambda>r.
           bindM (seekStart b r) (\<lambda>r.
           chooseFingerprint b f r))) w3"
  using assms
  by (auto simp: build_def bindM_def chooseLineSplitFunc_def buildEncoding_def split: option.splits)

lemma build_succeeds_iff: "(\<exists>r w'. build env b w = (Inr r, w')) \<longleftrightarrow> buildOk env b"
proof
  assume "\<exists>r w'. build env b w = (Inr r, w')"
  then obtain r w' where bd: "build env b w = (Inr r, w')" by blast
  from build_Inr_stages[OF bd] obtain s enc r3 w3 where
    1: "(case b_splitFunc b of Some t \<Rightarrow> s = t
      | None \<Rightarrow> splitterFactory (factory b) (maxLogSize (fac_readerConfig (factory b))) = Inr s)" and
    2: "encodingConfig (factory b) = Inr enc" and
    3: "choosePhase env b ((initReader b)\<lparr>lineSplitFunc := Some s, encoding := Some enc\<rparr>) w
       = (Inr r3, w3)" and
    4: "(case b_file b of
        None \<Rightarrow> r = r3\<lparr>loggerPath := Some ''uninitialized''\<rparr> \<and> w' = w3
      | Some f \<Rightarrow> (\<exists>r4 w4 r5 w5. bindFile env b f r3 w3 = (Inr r4, w4) \<and>
           seekStart b r4 w4 = (Inr r5, w5) \<and> chooseFingerprint b f r5 w5 = (Inr r, w')))"
    by blast
  have e: "earlyStagesOk b" using 1 2 early_stages_succeed by blast
  have p: "phaseOk env b" using 3 choosePhase_succeeds by blast
  have f: "case b_file b of None \<Rightarrow> True | Some f \<Rightarrow> fileStagesOk b f"
  proof (cases "b_file b")
    case None then show ?thesis by simp
  next
    case (Some f)
    with 4 obtain r4 w4 r5 w5 where a: "bindFile env b f r3 w3 = (Inr r4, w4)"
      and b: "seekStart b r4 w4 = (Inr r5, w5)" and c: "chooseFingerprint b f r5 w5 = (Inr r, w')"
      by auto
    from bindFile_Inr[OF a] have "r_file r4 = Some f" by simp
    from seekStart_succeeds[OF this] b have "fromBeginning (factory b) \<or> \<not> statFails f" by blast
    moreover from a bindFile_succeeds
    have "fileAttributes b \<noteq> None \<or> \<not> anyIncluded (fac_readerConfig (factory b))" by blast
    moreover from c chooseFingerprint_succeeds have "fp b \<noteq> None \<or> \<not> readFails f" by blast
    ultimately show ?thesis using Some by (simp add: fileStagesOk_def)
  qed
  from e p f show "buildOk env b" by (simp add: buildOk_def)
next
  assume ok: "buildOk env b"
  then obtain s enc where
    1: "(case b_splitFunc b of Some t \<Rightarrow> s = t
      | None \<Rightarrow> splitterFactory (factory b) (maxLogSize (fac_readerConfig (factory b))) = Inr s)" and
    2: "encodingConfig (factory b) = Inr enc"
    unfolding buildOk_def early_stages_succeed by blast
  from ok obtain r3 w3 where
    3: "choosePhase env b ((initReader b)\<lparr>lineSplitFunc := Some s, encoding := Some enc\<rparr>) w
       = (Inr r3, w3)"
    unfolding buildOk_def using choosePhase_succeeds by blast
  note eq = build_from_stages[OF 1 2 3]
  show "\<exists>r w'. build env b w = (Inr r, w')"
  proof (cases "b_file b")
    case None
    then show ?thesis by (simp add: eq returnM_def)
  next
    case (Some f)
    with ok have fs: "fileStagesOk b f" by (simp add: buildOk_def)
    then obtain r4 w4 where a: "bindFile env b f r3 w3 = (Inr r4, w4)"
      unfolding fileStagesOk_def using bindFile_succeeds by blast
    from bindFile_Inr[OF a] have "r_file r4 = Some f" by simp
    from seekStart_succeeds[OF this] fs obtain r5 w5 where b: "seekStart b r4 w4 = (Inr r5, w5)"
      unfolding fileStagesOk_def by blast
    from fs obtain r w' where c: "chooseFingerprint b f r5 w5 = (Inr r, w')"
      unfolding fileStagesOk_def using chooseFingerprint_succeeds by blast
    show ?thesis by (simp add: eq Some bindM_def a b c)
  qed
qed

lemma build_fails_iff: "isl (fst (build env b w)) \<longleftrightarrow> \<not> buildOk env b"
proof -
  have "(\<exists>r w'. build env b w = (Inr r, w')) \<longleftrightarrow> \<not> isl (fst (build env b w))"
    by (cases "build env b w"; cases "fst (build env b w)") auto
  then show ?thesis using build_succeeds_iff by blast
qed

subsection \<open>A build without a file\<close>

text \<open>
  C10. A build with no bound file, which is what \<open>unsafeReader\<close> runs, makes no call on
  a file or a path, leaves every attribute map and fingerprint as it was, and the Reader
  it returns has no file, no fingerprint and the builder's offset, also when
  \<open>fromBeginning\<close> is false. With header settings that are not finalized it still
  builds and starts the pipeline, and a pipeline whose \<open>Build\<close> or \<open>Start\<close> fails
  makes it return that error.
\<close>

theorem build_without_file:
  "b_file b = None \<Longrightarrow> build env b w = (res, w') \<Longrightarrow>
     filter isFileCall (callsDuring w w') = [] \<and>
     attrMaps w' = attrMaps w \<and> fingerprints w' = fingerprints w \<and>
     (\<forall>r. res = Inr r \<longrightarrow> r_file r = None \<and> Fingerprint r = None \<and> Offset r = offset b) \<and>
     (\<forall>hs. fac_headerSettings (factory b) = Some hs \<and> \<not> headerFinalized b \<and> earlyStagesOk b \<longrightarrow>
        CallPipelineBuild (metadataOperators hs) \<in> set (callsDuring w w') \<and>
        (\<forall>e. pipelineBuild env (metadataOperators hs) = Inl e \<longrightarrow>
           res = Inl (Wrapped ''failed to build pipeline'' e)) \<and>
        (\<forall>p. pipelineBuild env (metadataOperators hs) = Inr p \<longrightarrow>
           CallPipelineStart p \<in> set (callsDuring w w') \<and>
           (\<forall>e. pipelineStart env p = Some e \<longrightarrow>
              res = Inl (Wrapped ''failed to start header pipeline'' e))))"
proof -
  assume nf: "b_file b = None" and bd: "build env b w = (res, w')"
  have "traceExt (\<lambda>e. \<not> isFileCall e) w w'"
    using bd by (rule build_trace) (use nf in simp_all)
  then have 1: "filter isFileCall (callsDuring w w') = []" by (rule traceExt_filter)
  from build_store[OF bd] nf have 2: "attrMaps w' = attrMaps w \<and> fingerprints w' = fingerprints w"
    by (simp add: storeFrame_def)
  have 3: "\<forall>r. res = Inr r \<longrightarrow> r_file r = None \<and> Fingerprint r = None \<and> Offset r = offset b"
    using bd nf by (auto dest: build_Inr_fields)
  have 4: "\<forall>hs. fac_headerSettings (factory b) = Some hs \<and> \<not> headerFinalized b \<and> earlyStagesOk b \<longrightarrow>
        CallPipelineBuild (metadataOperators hs) \<in> set (callsDuring w w') \<and>
        (\<forall>e. pipelineBuild env (metadataOperators hs) = Inl e \<longrightarrow>
           res = Inl (Wrapped ''failed to build pipeline'' e)) \<and>
        (\<forall>p. pipelineBuild env (metadataOperators hs) = Inr p \<longrightarrow>
           CallPipelineStart p \<in> set (callsDuring w w') \<and>
           (\<forall>e. pipelineStart env p = Some e \<longrightarrow>
              res = Inl (Wrapped ''failed to start header pipeline'' e)))"
  proof (intro allI impI)
    fix hs
    assume a: "fac_headerSettings (factory b) = Some hs \<and> \<not> headerFinalized b \<and> earlyStagesOk b"
    then obtain s enc where
      s: "(case b_splitFunc b of Some t \<Rightarrow> s = t
        | None \<Rightarrow> splitterFactory (factory b) (maxLogSize (fac_readerConfig (factory b))) = Inr s)"
      and e: "encodingConfig (factory b) = Inr enc"
      unfolding early_stages_succeed by blast
    let ?r = "(initReader b)\<lparr>lineSplitFunc := Some s, encoding := Some enc\<rparr>"
    have ph: "choosePhase env b ?r w = headerPhase env hs ?r w"
      using a by (simp add: choosePhase_header)
    have run: "build env b w =
       (case headerPhase env hs ?r w of
          (Inl err, w1) \<Rightarrow> (Inl err, w1)
        | (Inr r3, w3) \<Rightarrow> (Inr (r3\<lparr>loggerPath := Some ''uninitialized''\<rparr>), w3))"
      using s e nf ph
      by (auto simp: build_def bindM_def chooseLineSplitFunc_def buildEncoding_def returnM_def
               split: option.splits sum.splits prod.splits)
    show "CallPipelineBuild (metadataOperators hs) \<in> set (callsDuring w w') \<and>
        (\<forall>e. pipelineBuild env (metadataOperators hs) = Inl e \<longrightarrow>
           res = Inl (Wrapped ''failed to build pipeline'' e)) \<and>
        (\<forall>p. pipelineBuild env (metadataOperators hs) = Inr p \<longrightarrow>
           CallPipelineStart p \<in> set (callsDuring w w') \<and>
           (\<forall>e. pipelineStart env p = Some e \<longrightarrow>
              res = Inl (Wrapped ''failed to start header pipeline'' e)))"
      using bd unfolding run
      by (auto simp: headerPhase_def Let_def callsDuring_def split: sum.splits option.splits)
  qed
  from 1 2 3 4 show ?thesis by blast
qed

text \<open>\<open>unsafeReader\<close> with header settings, once with a pipeline that cannot be built.\<close>

theorem build_without_file_witness:
  "b_file (freshBuilder ex_header_factory ex_world) = None \<and>
   fst (unsafeReader ex_failing_env ex_header_factory ex_world) =
     Inl (Wrapped ''failed to build pipeline'' (ExternalError ''unknown operator'')) \<and>
   \<not> isl (fst (unsafeReader ex_env ex_header_factory ex_world)) \<and>
   r_file (projr (fst (unsafeReader ex_env ex_header_factory ex_world))) = None \<and>
   Fingerprint (projr (fst (unsafeReader ex_env ex_header_factory ex_world))) = None \<and>
   filter isFileCall
     (callsDuring ex_world (snd (unsafeReader ex_env ex_header_factory ex_world))) = [] \<and>
   CallPipelineStart 5 \<in>
     set (callsDuring ex_world (snd (unsafeReader ex_env ex_header_factory ex_world)))"
proof -
  let ?b = "freshBuilder ex_header_factory ex_world"
  let ?w = "withEmptyMap ex_world"
  let ?x = "build ex_env ?b ?w" and ?y = "build ex_failing_env ?b ?w"
  have nf: "b_file ?b = None" by (simp add: freshBuilder_def)
  have hs: "fac_headerSettings (factory ?b) = Some ex_header" "\<not> headerFinalized ?b"
    "earlyStagesOk ?b"
    by (simp_all add: freshBuilder_def earlyStagesOk_def example_defs)
  have ok: "\<not> isl (fst ?x)"
    by (simp add: build_fails_iff buildOk_def phaseOk_def earlyStagesOk_def freshBuilder_def
          example_defs)
  have pf: "pipelineBuild ex_failing_env (metadataOperators ex_header) =
      Inl (ExternalError ''unknown operator'')"
    "pipelineBuild ex_env (metadataOperators ex_header) = Inr 5"
    by (simp_all add: example_defs)
  have cd: "\<And>u. callsDuring ?w u = callsDuring ex_world u" by (simp add: callsDuring_def)
  have y: "?y = (fst ?y, snd ?y)" by simp
  from build_without_file[OF nf run_collapse[OF ok] ] build_without_file[OF nf y] nf hs ok pf
  show ?thesis by (simp add: unsafeReader_eq cd)
qed

subsection \<open>The fingerprint\<close>

text \<open>
  C7. On a bound file, a fingerprint supplied to the builder becomes the Reader's
  fingerprint as it is: no read of the file for a fingerprint is recorded and no
  fingerprint is allocated, whether the build succeeds or fails. Without one, the Reader
  gets a newly allocated fingerprint holding the first \<open>fingerprintSize\<close> bytes of the
  file, fewer when the file is shorter; and when that read fails the build returns an
  error and no Reader.
\<close>

theorem build_fingerprint:
  "b_file b = Some f \<Longrightarrow> build env b w = (res, w') \<Longrightarrow>
     (\<forall>p. fp b = Some p \<longrightarrow>
        filter isFingerprintRead (callsDuring w w') = [] \<and> fingerprints w' = fingerprints w \<and>
        (\<forall>r. res = Inr r \<longrightarrow> Fingerprint r = Some p)) \<and>
     (fp b = None \<longrightarrow>
        (\<forall>r. res = Inr r \<longrightarrow>
           Fingerprint r = Some (length (fingerprints w)) \<and>
           fingerprints w' =
             fingerprints w @ [take (fingerprintSize (fac_readerConfig (factory b))) (contents f)] \<and>
           length (fingerprints w' ! length (fingerprints w))
             \<le> fingerprintSize (fac_readerConfig (factory b))) \<and>
        (readFails f \<longrightarrow> isl res))"
proof -
  assume bf: "b_file b = Some f" and bd: "build env b w = (res, w')"
  have tail: "\<And>r. res = Inr r \<Longrightarrow>
     \<exists>r5 w5. fingerprints w5 = fingerprints w \<and> chooseFingerprint b f r5 w5 = (Inr r, w')"
  proof -
    fix r assume "res = Inr r"
    with bd have bd': "build env b w = (Inr r, w')" by simp
    from build_Inr_stages[OF bd'] bf obtain r2 r3 w3 r4 w4 r5 w5 where
      3: "choosePhase env b r2 w = (Inr r3, w3)" and a: "bindFile env b f r3 w3 = (Inr r4, w4)"
      and b: "seekStart b r4 w4 = (Inr r5, w5)" and c: "chooseFingerprint b f r5 w5 = (Inr r, w')"
      by auto
    from choosePhase_store[OF 3] bindFile_frame[OF a] seekStart_store[OF b]
    have "fingerprints w5 = fingerprints w" by simp
    with c show "\<exists>r5 w5. fingerprints w5 = fingerprints w \<and>
        chooseFingerprint b f r5 w5 = (Inr r, w')" by blast
  qed
  have 1: "\<forall>p. fp b = Some p \<longrightarrow>
        filter isFingerprintRead (callsDuring w w') = [] \<and> fingerprints w' = fingerprints w \<and>
        (\<forall>r. res = Inr r \<longrightarrow> Fingerprint r = Some p)"
  proof (intro allI impI)
    fix p assume p: "fp b = Some p"
    have "traceExt (\<lambda>e. \<not> isFingerprintRead e) w w'"
      using bd by (rule build_trace) (use p in simp_all)
    then have "filter isFingerprintRead (callsDuring w w') = []" by (rule traceExt_filter)
    moreover from build_store[OF bd] p have "fingerprints w' = fingerprints w"
      by (simp add: storeFrame_def)
    moreover have "\<forall>r. res = Inr r \<longrightarrow> Fingerprint r = Some p"
      using tail p by (fastforce dest: chooseFingerprint_Inr)
    ultimately show "filter isFingerprintRead (callsDuring w w') = [] \<and>
        fingerprints w' = fingerprints w \<and> (\<forall>r. res = Inr r \<longrightarrow> Fingerprint r = Some p)"
      by simp
  qed
  have 2: "fp b = None \<longrightarrow>
        (\<forall>r. res = Inr r \<longrightarrow>
           Fingerprint r = Some (length (fingerprints w)) \<and>
           fingerprints w' =
             fingerprints w @ [take (fingerprintSize (fac_readerConfig (factory b))) (contents f)] \<and>
           length (fingerprints w' ! length (fingerprints w))
             \<le> fingerprintSize (fac_readerConfig (factory b))) \<and>
        (readFails f \<longrightarrow> isl res)"
  proof (intro impI conjI allI)
    fix r assume n: "fp b = None" and r: "res = Inr r"
    from tail[OF r] obtain r5 w5 where w5: "fingerprints w5 = fingerprints w"
      and c: "chooseFingerprint b f r5 w5 = (Inr r, w')" by blast
    from chooseFingerprint_Inr[OF c] n w5
    have fr: "Fingerprint r = Some (length (fingerprints w))"
      and fw: "fingerprints w' =
        fingerprints w @ [take (fingerprintSize (fac_readerConfig (factory b))) (contents f)]"
      by auto
    show "Fingerprint r = Some (length (fingerprints w))" by (rule fr)
    show "fingerprints w' =
        fingerprints w @ [take (fingerprintSize (fac_readerConfig (factory b))) (contents f)]"
      by (rule fw)
    show "length (fingerprints w' ! length (fingerprints w))
        \<le> fingerprintSize (fac_readerConfig (factory b))"
      by (simp add: fw)
  next
    assume n: "fp b = None" and rf: "readFails f"
    have "\<not> buildOk env b" using bf n rf by (simp add: buildOk_def fileStagesOk_def)
    then have "isl (fst (build env b w))" by (simp add: build_fails_iff)
    with bd show "isl res" by simp
  qed
  from 1 2 show ?thesis by blast
qed

text \<open>
  A supplied fingerprint, a captured one (4 bytes of a file of 10), and a file that cannot
  be read.
\<close>

theorem build_fingerprint_witness:
  "b_file ex_builder = Some ex_file \<and> fp (ex_builder\<lparr>fp := Some 0\<rparr>) = Some 0 \<and>
   Fingerprint (projr (fst (build ex_env (ex_builder\<lparr>fp := Some 0\<rparr>) ex_world))) = Some 0 \<and>
   fingerprints (snd (build ex_env (ex_builder\<lparr>fp := Some 0\<rparr>) ex_world)) = fingerprints ex_world \<and>
   Fingerprint (projr (fst (build ex_env ex_builder ex_world))) = Some 1 \<and>
   fingerprints (snd (build ex_env ex_builder ex_world)) = [ [65, 10, 66, 10], [65, 10, 66, 10] ] \<and>
   isl (fst (build ex_env (ex_builder\<lparr>b_file := Some ex_unreadable_file\<rparr>) ex_world))"
proof -
  let ?s = "ex_builder\<lparr>fp := Some 0\<rparr>" and ?u = "ex_builder\<lparr>b_file := Some ex_unreadable_file\<rparr>"
  let ?x = "build ex_env ?s ex_world" and ?y = "build ex_env ex_builder ex_world"
    and ?z = "build ex_env ?u ex_world"
  have ok: "buildOk ex_env ?s" "buildOk ex_env ex_builder"
    by (simp_all add: buildOk_def phaseOk_def earlyStagesOk_def fileStagesOk_def example_defs)
  then have n: "\<not> isl (fst ?x)" "\<not> isl (fst ?y)" by (simp_all add: build_fails_iff)
  have b: "b_file ?s = Some ex_file" "b_file ex_builder = Some ex_file"
    "b_file ?u = Some ex_unreadable_file" "fp ?s = Some 0" "fp ex_builder = None" "fp ?u = None"
    "readFails ex_unreadable_file"
    by (simp_all add: ex_builder_def ex_unreadable_file_def)
  have z: "?z = (fst ?z, snd ?z)" by simp
  have v: "fingerprints ex_world = [ [65, 10, 66, 10] ]"
    "take (fingerprintSize (fac_readerConfig (factory ex_builder))) (contents ex_file)
       = [65, 10, 66, 10]"
    by (simp_all add: example_defs)
  from build_fingerprint[OF b(1) run_collapse[OF n(1)] ] b(4)
  have 1: "Fingerprint (projr (fst ?x)) = Some 0 \<and> fingerprints (snd ?x) = fingerprints ex_world"
    by blast
  from build_fingerprint[OF b(2) run_collapse[OF n(2)] ] b(5)
  have 2: "Fingerprint (projr (fst ?y)) = Some (length (fingerprints ex_world)) \<and>
     fingerprints (snd ?y) = fingerprints ex_world @
       [take (fingerprintSize (fac_readerConfig (factory ex_builder))) (contents ex_file)]"
    by blast
  from build_fingerprint[OF b(3) z] b(6,7) have 3: "isl (fst ?z)" by blast
  from 1 2 3 b v show ?thesis by simp
qed

subsection \<open>Path resolution\<close>

lemma resolveSymlinks_eq:
  "resolveSymlinks env (Name f) w =
     (resolvedName env f,
      if goosWindows env then w
      else case evalSymlinks env (Name f) of
             Inl e \<Rightarrow> record_call (LoggedErrorf ''resolve symlinks'' e)
                       (record_call (CallEvalSymlinks (Name f)) w)
           | Inr p \<Rightarrow> record_call (CallEvalSymlinks (Name f)) w)"
  by (simp add: resolveSymlinks_def resolvedName_def Let_def split: sum.splits)

lemma bindFile_logs:
  assumes "bindFile env b f r w = (res, w')"
  shows "traceExt (\<lambda>_. True) w w' \<and>
     (\<forall>e. \<not> goosWindows env \<and> evalSymlinks env (Name f) = Inl e \<longrightarrow>
        LoggedErrorf ''resolve symlinks'' e \<in> set (callsDuring w w')) \<and>
     (\<forall>e. filepathAbs env (resolvedName env f) = Inl e \<longrightarrow>
        LoggedErrorf ''resolve abs'' e \<in> set (callsDuring w w'))"
proof -
  obtain w1 where rs: "resolveSymlinks env (Name f) w = (resolvedName env f, w1)"
    by (simp add: resolveSymlinks_eq)
  obtain absPath w2 where ra: "resolveAbs env (resolvedName env f) w1 = (absPath, w2)" by force
  from assms have t: "trace w' = trace w2"
    unfolding bindFile_eq[OF rs ra]
    by (auto simp: bindM_cases returnM_eq dest: setFileAttributes_frame)
  from rs have t1: "\<exists>evs. trace w1 = trace w @ evs \<and>
     (\<forall>e. \<not> goosWindows env \<and> evalSymlinks env (Name f) = Inl e \<longrightarrow>
        LoggedErrorf ''resolve symlinks'' e \<in> set evs)"
    by (auto simp: resolveSymlinks_eq split: if_splits sum.splits)
  from ra have t2: "\<exists>evs. trace w2 = trace w1 @ evs \<and>
     (\<forall>e. filepathAbs env (resolvedName env f) = Inl e \<longrightarrow>
        LoggedErrorf ''resolve abs'' e \<in> set evs)"
    by (auto simp: resolveAbs_def Let_def split: sum.splits)
  from t t1 t2 show ?thesis by (auto simp: traceExt_def callsDuring_def)
qed

lemma callsDuring_mono:
  "traceExt P w1 w2 \<Longrightarrow> traceExt Q w2 w3 \<Longrightarrow> traceExt R w3 w4 \<Longrightarrow>
     e \<in> set (callsDuring w2 w3) \<Longrightarrow> e \<in> set (callsDuring w1 w4)"
  by (auto simp: traceExt_def callsDuring_def)

lemma buildOk_resolution [simp]:
  "buildOk (env\<lparr>evalSymlinks := es, filepathAbs := ab\<rparr>) b = buildOk env b"
  by (simp add: buildOk_def phaseOk_def split: option.splits sum.splits)

text \<open>
  C9. Whether \<open>build\<close> fails does not depend on what \<^verbatim>\<open>filepath.EvalSymlinks\<close> and
  \<^verbatim>\<open>filepath.Abs\<close> answer: with any other answers, failing ones included, it returns a
  Reader exactly when it did before. In a build that returns a Reader on a bound file,
  a failure to resolve symlinks (off Windows) and a failure to make the path absolute are
  each logged.
\<close>

theorem path_resolution_failure_not_fatal:
  "b_file b = Some f \<Longrightarrow>
     isl (fst (build (env\<lparr>evalSymlinks := es, filepathAbs := ab\<rparr>) b w))
       = isl (fst (build env b w)) \<and>
     (\<forall>r w'. build env b w = (Inr r, w') \<longrightarrow>
        (\<forall>e. \<not> goosWindows env \<and> evalSymlinks env (Name f) = Inl e \<longrightarrow>
           LoggedErrorf ''resolve symlinks'' e \<in> set (callsDuring w w')) \<and>
        (\<forall>e. filepathAbs env (resolvedName env f) = Inl e \<longrightarrow>
           LoggedErrorf ''resolve abs'' e \<in> set (callsDuring w w')))"
proof -
  assume bf: "b_file b = Some f"
  have 1: "isl (fst (build (env\<lparr>evalSymlinks := es, filepathAbs := ab\<rparr>) b w))
       = isl (fst (build env b w))"
    by (simp add: build_fails_iff)
  have 2: "\<forall>r w'. build env b w = (Inr r, w') \<longrightarrow>
        (\<forall>e. \<not> goosWindows env \<and> evalSymlinks env (Name f) = Inl e \<longrightarrow>
           LoggedErrorf ''resolve symlinks'' e \<in> set (callsDuring w w')) \<and>
        (\<forall>e. filepathAbs env (resolvedName env f) = Inl e \<longrightarrow>
           LoggedErrorf ''resolve abs'' e \<in> set (callsDuring w w'))"
  proof (intro allI impI)
    fix r w' assume bd: "build env b w = (Inr r, w')"
    from build_Inr_stages[OF bd] bf obtain r2 r3 w3 r4 w4 r5 w5 where
      3: "choosePhase env b r2 w = (Inr r3, w3)" and a: "bindFile env b f r3 w3 = (Inr r4, w4)"
      and b: "seekStart b r4 w4 = (Inr r5, w5)" and c: "chooseFingerprint b f r5 w5 = (Inr r, w')"
      by auto
    have p: "traceExt (\<lambda>_. True) w w3" using 3 by (rule choosePhase_trace) simp
    have "traceExt (\<lambda>_. True) w4 w5" using b by (rule seekStart_trace) simp
    moreover have "traceExt (\<lambda>_. True) w5 w'" using c by (rule chooseFingerprint_trace) simp
    ultimately have q: "traceExt (\<lambda>_. True) w4 w'" by (rule traceExt_trans)
    note l = bindFile_logs[OF a]
    from l have m: "traceExt (\<lambda>_. True) w3 w4" by simp
    show "(\<forall>e. \<not> goosWindows env \<and> evalSymlinks env (Name f) = Inl e \<longrightarrow>
           LoggedErrorf ''resolve symlinks'' e \<in> set (callsDuring w w')) \<and>
        (\<forall>e. filepathAbs env (resolvedName env f) = Inl e \<longrightarrow>
           LoggedErrorf ''resolve abs'' e \<in> set (callsDuring w w'))"
      using l callsDuring_mono[OF p m q] by blast
  qed
  from 1 2 show ?thesis by simp
qed

text \<open>
  Both resolutions fail: the Reader is returned all the same, both failures are in the
  log, and the resolved path attribute is the empty path.
\<close>

theorem path_resolution_failure_not_fatal_witness:
  "b_file ex_builder = Some ex_file \<and>
   evalSymlinks ex_unresolvable_env (Name ex_file) = Inl (ExternalError ''no such file or directory'') \<and>
   filepathAbs ex_unresolvable_env (resolvedName ex_unresolvable_env ex_file)
     = Inl (ExternalError ''getwd failed'') \<and>
   \<not> isl (fst (build ex_unresolvable_env ex_builder ex_world)) \<and>
   LoggedErrorf ''resolve symlinks'' (ExternalError ''no such file or directory'')
     \<in> set (callsDuring ex_world (snd (build ex_unresolvable_env ex_builder ex_world))) \<and>
   LoggedErrorf ''resolve abs'' (ExternalError ''getwd failed'')
     \<in> set (callsDuring ex_world (snd (build ex_unresolvable_env ex_builder ex_world))) \<and>
   mapIndex (snd (build ex_unresolvable_env ex_builder ex_world))
     (FileAttributes (projr (fst (build ex_unresolvable_env ex_builder ex_world))))
     logFilePathResolved = AnyString []"
proof -
  let ?x = "build ex_unresolvable_env ex_builder ex_world"
  have bf: "b_file ex_builder = Some ex_file" by (simp add: ex_builder_def)
  have ok: "buildOk ex_env ex_builder"
    by (simp add: buildOk_def phaseOk_def earlyStagesOk_def fileStagesOk_def example_defs)
  have e: "ex_unresolvable_env = ex_env\<lparr>evalSymlinks := evalSymlinks ex_unresolvable_env,
      filepathAbs := filepathAbs ex_unresolvable_env\<rparr>"
    by (simp add: ex_unresolvable_env_def)
  have n: "\<not> isl (fst ?x)"
    using path_resolution_failure_not_fatal[OF bf, where env = ex_env
        and es = "evalSymlinks ex_unresolvable_env" and ab = "filepathAbs ex_unresolvable_env"
        and w = ex_world] ok e
    by (simp add: build_fails_iff)
  have f: "\<not> goosWindows ex_unresolvable_env"
    "evalSymlinks ex_unresolvable_env (Name ex_file) = Inl (ExternalError ''no such file or directory'')"
    "filepathAbs ex_unresolvable_env (resolvedName ex_unresolvable_env ex_file)
     = Inl (ExternalError ''getwd failed'')"
    by (simp_all add: ex_unresolvable_env_def ex_env_def)
  have v: "mapIndex (snd ?x) (FileAttributes (projr (fst ?x))) logFilePathResolved = AnyString []"
    by (simp add: model_defs example_defs ex_unresolvable_env_def)
  from path_resolution_failure_not_fatal[OF bf, where env = ex_unresolvable_env
      and es = "evalSymlinks ex_unresolvable_env" and ab = "filepathAbs ex_unresolvable_env"
      and w = ex_world]
    run_collapse[OF n] f
  have "LoggedErrorf ''resolve symlinks'' (ExternalError ''no such file or directory'')
     \<in> set (callsDuring ex_world (snd ?x)) \<and>
   LoggedErrorf ''resolve abs'' (ExternalError ''getwd failed'')
     \<in> set (callsDuring ex_world (snd ?x))"
    by blast
  with bf f n v show ?thesis by simp
qed

subsection \<open>File attributes\<close>

lemma attr_keys_distinct:
  "distinct [logFileName, logFilePath, logFileNameResolved, logFilePathResolved]"
  by (simp add: logFileName_def logFilePath_def logFileNameResolved_def logFilePathResolved_def)

lemma attr_keys_neq:
  "logFileName \<noteq> logFilePath" "logFileName \<noteq> logFileNameResolved"
  "logFileName \<noteq> logFilePathResolved" "logFilePath \<noteq> logFileName"
  "logFilePath \<noteq> logFileNameResolved" "logFilePath \<noteq> logFilePathResolved"
  "logFileNameResolved \<noteq> logFileName" "logFileNameResolved \<noteq> logFilePath"
  "logFileNameResolved \<noteq> logFilePathResolved" "logFilePathResolved \<noteq> logFileName"
  "logFilePathResolved \<noteq> logFilePath" "logFilePathResolved \<noteq> logFileNameResolved"
  by (simp_all add: logFileName_def logFilePath_def logFileNameResolved_def logFilePathResolved_def)

lemma attrStep_same:
  "(attrStep included k v mp k \<noteq> None) = (included \<or> mp k = Some AnyNil)"
  by (auto simp: attrStep_def)

lemma attrStep_other: "k' \<noteq> k \<Longrightarrow> attrStep included k v mp k' = mp k'"
  by (simp add: attrStep_def)

lemma attrSteps_keys:
  "(attrSteps env cfg n p mp logFileName \<noteq> None)
     = (includeFileName cfg \<or> mp logFileName = Some AnyNil)"
  "(attrSteps env cfg n p mp logFilePath \<noteq> None)
     = (includeFilePath cfg \<or> mp logFilePath = Some AnyNil)"
  "(attrSteps env cfg n p mp logFileNameResolved \<noteq> None)
     = (includeFileNameResolved cfg \<or> mp logFileNameResolved = Some AnyNil)"
  "(attrSteps env cfg n p mp logFilePathResolved \<noteq> None)
     = (includeFilePathResolved cfg \<or> mp logFilePathResolved = Some AnyNil)"
  by (simp_all add: attrSteps_def attrStep_same attrStep_other attr_keys_neq del: not_None_eq)

lemma attrSteps_other:
  "k \<notin> {logFileName, logFilePath, logFileNameResolved, logFilePathResolved} \<Longrightarrow>
     attrSteps env cfg n p mp k = mp k"
  by (simp add: attrSteps_def attrStep_other)

text \<open>The attribute map of the Reader that a build on a file returns.\<close>

lemma build_Inr_attrs:
  assumes bf: "b_file b = Some f" and bd: "build env b w = (Inr r, w')"
    and a: "fileAttributes b = Some a" "a < length (attrMaps w)"
  shows "\<exists>absPath. attrMaps w' =
     (attrMaps w)[a := attrSteps env (fac_readerConfig (factory b)) (Name f) absPath (attrMaps w ! a)]"
proof -
  from build_Inr_stages[OF bd] bf obtain r2 r3 w3 r4 w4 r5 w5 where
    3: "choosePhase env b r2 w = (Inr r3, w3)" and 4: "bindFile env b f r3 w3 = (Inr r4, w4)"
    and 5: "seekStart b r4 w4 = (Inr r5, w5)" and 6: "chooseFingerprint b f r5 w5 = (Inr r, w')"
    by auto
  from choosePhase_store[OF 3] have m3: "attrMaps w3 = attrMaps w" by simp
  obtain resolved w1 where rs: "resolveSymlinks env (Name f) w3 = (resolved, w1)" by force
  obtain absPath w2 where ra: "resolveAbs env resolved w1 = (absPath, w2)" by force
  from a m3 have "a < length (attrMaps w3)" by simp
  from bindFile_Some[OF a(1) this rs ra, of r3] 4 m3
  have "attrMaps w4 =
     (attrMaps w)[a := attrSteps env (fac_readerConfig (factory b)) (Name f) absPath (attrMaps w ! a)]"
    by auto
  with seekStart_store[OF 5] chooseFingerprint_maps[OF 6] show ?thesis by auto
qed

text \<open>
  Which of the four names the mapping of a built Reader holds: those whose flag is set,
  and those that the builder's mapping held with a nil value.
\<close>

lemma build_attribute_presence:
  "b_file b = Some f \<Longrightarrow> build env b w = (Inr r, w') \<Longrightarrow> liveMap w (fileAttributes b) \<Longrightarrow>
     FileAttributes r = fileAttributes b \<and>
     (hasKey w' (FileAttributes r) logFileName \<longleftrightarrow>
        includeFileName (fac_readerConfig (factory b)) \<or>
        nilValued w (fileAttributes b) logFileName) \<and>
     (hasKey w' (FileAttributes r) logFilePath \<longleftrightarrow>
        includeFilePath (fac_readerConfig (factory b)) \<or>
        nilValued w (fileAttributes b) logFilePath) \<and>
     (hasKey w' (FileAttributes r) logFileNameResolved \<longleftrightarrow>
        includeFileNameResolved (fac_readerConfig (factory b)) \<or>
        nilValued w (fileAttributes b) logFileNameResolved) \<and>
     (hasKey w' (FileAttributes r) logFilePathResolved \<longleftrightarrow>
        includeFilePathResolved (fac_readerConfig (factory b)) \<or>
        nilValued w (fileAttributes b) logFilePathResolved)"
proof -
  assume bf: "b_file b = Some f" and bd: "build env b w = (Inr r, w')"
    and lv: "liveMap w (fileAttributes b)"
  from build_Inr_fields[OF bd] bf have fa: "FileAttributes r = fileAttributes b" by simp
  show ?thesis
  proof (cases "fileAttributes b")
    case None
    from bd have "buildOk env b" using build_succeeds_iff by blast
    with bf None have "\<not> anyIncluded (fac_readerConfig (factory b))"
      by (simp add: buildOk_def fileStagesOk_def)
    with None fa show ?thesis by (simp add: hasKey_def nilValued_def anyIncluded_def)
  next
    case (Some a)
    with lv have l: "a < length (attrMaps w)" by (simp add: liveMap_def)
    from build_Inr_attrs[OF bf bd Some l] obtain absPath where
      "attrMaps w' = (attrMaps w)[a := attrSteps env (fac_readerConfig (factory b)) (Name f) absPath
          (attrMaps w ! a)]" by blast
    with l have "attrMaps w' ! a =
        attrSteps env (fac_readerConfig (factory b)) (Name f) absPath (attrMaps w ! a)"
      by simp
    with Some fa show ?thesis
      by (simp add: hasKey_def nilValued_def attrSteps_keys del: not_None_eq)
  qed
qed

text \<open>
  C6, as the source has it. The claim (each of the four attributes is in the Reader's
  mapping if and only if its flag is set) fails for a name that the mapping handed to the
  builder holds with a nil value: lines 174, 179, 184 and 189 delete the entry of a
  disabled flag only when \<^verbatim>\<open>r.FileAttributes[name] != nil\<close>.

  On a bound file, when the builder's mapping holds no nil value under the name of a
  disabled flag, each of the four attributes is in the Reader's mapping if and only if its
  flag is set: an attribute inherited under a disabled flag is removed. No other flag has
  a part in it.
\<close>

theorem build_file_attributes:
  "b_file b = Some f \<Longrightarrow> build env b w = (Inr r, w') \<Longrightarrow> liveMap w (fileAttributes b) \<Longrightarrow>
   noNilUnderDisabled (fac_readerConfig (factory b)) w (fileAttributes b) \<Longrightarrow>
     (hasKey w' (FileAttributes r) logFileName
        \<longleftrightarrow> includeFileName (fac_readerConfig (factory b))) \<and>
     (hasKey w' (FileAttributes r) logFilePath
        \<longleftrightarrow> includeFilePath (fac_readerConfig (factory b))) \<and>
     (hasKey w' (FileAttributes r) logFileNameResolved
        \<longleftrightarrow> includeFileNameResolved (fac_readerConfig (factory b))) \<and>
     (hasKey w' (FileAttributes r) logFilePathResolved
        \<longleftrightarrow> includeFilePathResolved (fac_readerConfig (factory b)))"
proof -
  assume bf: "b_file b = Some f" and bd: "build env b w = (Inr r, w')"
    and lv: "liveMap w (fileAttributes b)"
    and nn: "noNilUnderDisabled (fac_readerConfig (factory b)) w (fileAttributes b)"
  from build_attribute_presence[OF bf bd lv] nn show ?thesis
    unfolding noNilUnderDisabled_def by blast
qed

text \<open>
  The builder's mapping holds the file name and the file path; the file path flag is
  off, and the entry goes.
\<close>

theorem build_file_attributes_witness:
  "b_file ex_builder = Some ex_file \<and> liveMap ex_world (fileAttributes ex_builder) \<and>
   \<not> isl (fst (build ex_env ex_builder ex_world)) \<and>
   hasKey ex_world (fileAttributes ex_builder) logFilePath \<and>
   hasKey (snd (build ex_env ex_builder ex_world))
     (FileAttributes (projr (fst (build ex_env ex_builder ex_world)))) logFileName \<and>
   \<not> hasKey (snd (build ex_env ex_builder ex_world))
     (FileAttributes (projr (fst (build ex_env ex_builder ex_world)))) logFilePath \<and>
   \<not> hasKey (snd (build ex_env ex_builder ex_world))
     (FileAttributes (projr (fst (build ex_env ex_builder ex_world)))) logFileNameResolved \<and>
   hasKey (snd (build ex_env ex_builder ex_world))
     (FileAttributes (projr (fst (build ex_env ex_builder ex_world)))) logFilePathResolved"
proof -
  let ?x = "build ex_env ex_builder ex_world"
  have bf: "b_file ex_builder = Some ex_file" by (simp add: ex_builder_def)
  have lv: "liveMap ex_world (fileAttributes ex_builder)"
    by (simp add: liveMap_def ex_builder_def ex_world_def)
  have ok: "buildOk ex_env ex_builder"
    by (simp add: buildOk_def phaseOk_def earlyStagesOk_def fileStagesOk_def example_defs)
  then have n: "\<not> isl (fst ?x)" by (simp add: build_fails_iff)
  have fl: "includeFileName (fac_readerConfig (factory ex_builder))"
    "\<not> includeFilePath (fac_readerConfig (factory ex_builder))"
    "\<not> includeFileNameResolved (fac_readerConfig (factory ex_builder))"
    "includeFilePathResolved (fac_readerConfig (factory ex_builder))"
    by (simp_all add: example_defs)
  have nv: "\<not> nilValued ex_world (fileAttributes ex_builder) logFilePath"
    "\<not> nilValued ex_world (fileAttributes ex_builder) logFileNameResolved"
    "hasKey ex_world (fileAttributes ex_builder) logFilePath"
    by (simp_all add: nilValued_def hasKey_def ex_builder_def ex_world_def logFileName_def
          logFilePath_def logFileNameResolved_def)
  have nn: "noNilUnderDisabled (fac_readerConfig (factory ex_builder)) ex_world
      (fileAttributes ex_builder)"
    using fl nv by (simp add: noNilUnderDisabled_def)
  from build_file_attributes[OF bf run_collapse[OF n] lv nn] fl nv bf lv n
  show ?thesis by blast
qed

text \<open>
  The claim fails here: \<open>copy\<close> of a Reader whose mapping holds the file path with a
  nil value, under a configuration that does not include the file path. The successor's
  mapping still holds it.
\<close>

theorem disabled_attribute_kept_when_nil:
  "\<not> includeFilePath (fac_readerConfig ex_factory) \<and>
   \<not> isl (fst (copy ex_env ex_factory ex_old (Some ex_file) ex_nil_world)) \<and>
   r_file (projr (fst (copy ex_env ex_factory ex_old (Some ex_file) ex_nil_world)))
     = Some ex_file \<and>
   hasKey (snd (copy ex_env ex_factory ex_old (Some ex_file) ex_nil_world))
     (FileAttributes (projr (fst (copy ex_env ex_factory ex_old (Some ex_file) ex_nil_world))))
     logFilePath"
  by (simp add: model_defs example_defs ex_nil_world_def)

subsection \<open>Sharing between a Reader and its copy\<close>

lemma build_Inr_supplied_fingerprint:
  assumes bf: "b_file b = Some f" and bd: "build env b w = (Inr r, w')" and p: "fp b = Some p"
  shows "Fingerprint r = Some p"
proof -
  from build_Inr_stages[OF bd] bf obtain r5 w5 where
    "chooseFingerprint b f r5 w5 = (Inr r, w')" by auto
  from chooseFingerprint_Inr[OF this] p show ?thesis by auto
qed

lemma copyWorld_maps:
  "liveMap w (FileAttributes old) \<Longrightarrow>
     attrMaps (copyWorld old a w) = attrMaps w @ [Map.empty, mapEntries w (FileAttributes old)]"
  by (cases "FileAttributes old")
     (simp_all add: copyWorld_def liveMap_def mapEntries_def nth_append)

text \<open>
  C8, as the source has it. The claim (for every \<open>old\<close> and \<open>newFile\<close> the successor
  gets an independent copy of \<open>old\<close>'s fingerprint) fails for a nil \<open>newFile\<close>:
  \<open>build\<close> returns at line 149, before lines 199 to 201 store the fingerprint, and
  the successor has none.

  The successor that \<open>copy\<close> makes on a file has a fingerprint of its own, at an
  address other than \<open>old\<close>'s and with the same bytes; the one it makes without a file
  has no fingerprint. In both cases it has an attribute mapping of its own, which agrees
  with \<open>old\<close>'s on every name but the four that \<open>build\<close> sets or deletes (on
  every name, without a file), and \<open>old\<close>'s fingerprint and mapping are as they were.
  Writing to the fingerprint or the mapping of one of the two Readers afterwards leaves
  those of the other as they are.
\<close>

theorem copy_shares_nothing:
  "copy env f old newFile w = (Inr r, w') \<Longrightarrow>
   liveFingerprint w (Fingerprint old) \<Longrightarrow> liveMap w (FileAttributes old) \<Longrightarrow>
     (newFile \<noteq> None \<longrightarrow>
        Fingerprint old \<noteq> None \<and> Fingerprint r \<noteq> None \<and> Fingerprint r \<noteq> Fingerprint old \<and>
        liveFingerprint w' (Fingerprint r) \<and>
        fingerprintBytes w' (Fingerprint r) = fingerprintBytes w (Fingerprint old)) \<and>
     (newFile = None \<longrightarrow>
        Fingerprint r = None \<and>
        mapEntries w' (FileAttributes r) = mapEntries w (FileAttributes old)) \<and>
     fingerprintBytes w' (Fingerprint old) = fingerprintBytes w (Fingerprint old) \<and>
     FileAttributes r \<noteq> None \<and> FileAttributes r \<noteq> FileAttributes old \<and>
     liveMap w' (FileAttributes r) \<and>
     mapEntries w' (FileAttributes old) = mapEntries w (FileAttributes old) \<and>
     (\<forall>k. k \<notin> {logFileName, logFilePath, logFileNameResolved, logFilePathResolved} \<longrightarrow>
        mapEntries w' (FileAttributes r) k = mapEntries w (FileAttributes old) k) \<and>
     (\<forall>bs. fingerprintBytes (writeFingerprint (Fingerprint r) bs w') (Fingerprint old)
        = fingerprintBytes w' (Fingerprint old)) \<and>
     (\<forall>bs. fingerprintBytes (writeFingerprint (Fingerprint old) bs w') (Fingerprint r)
        = fingerprintBytes w' (Fingerprint r)) \<and>
     (\<forall>k v. mapEntries (snd (mapAssign (FileAttributes r) k v w')) (FileAttributes old)
        = mapEntries w' (FileAttributes old)) \<and>
     (\<forall>k. mapEntries (mapDelete (FileAttributes r) k w') (FileAttributes old)
        = mapEntries w' (FileAttributes old)) \<and>
     (\<forall>k v. mapEntries (snd (mapAssign (FileAttributes old) k v w')) (FileAttributes r)
        = mapEntries w' (FileAttributes r)) \<and>
     (\<forall>k. mapEntries (mapDelete (FileAttributes old) k w') (FileAttributes r)
        = mapEntries w' (FileAttributes r))"
proof -
  assume cp: "copy env f old newFile w = (Inr r, w')"
    and lf: "liveFingerprint w (Fingerprint old)" and lm: "liveMap w (FileAttributes old)"
  from cp obtain a where fo: "Fingerprint old = Some a"
    by (cases "Fingerprint old") (auto simp: copy_nil)
  with lf have la: "a < length (fingerprints w)" by (simp add: liveFingerprint_def)
  let ?b = "copyBuilder f old newFile w" and ?w = "copyWorld old a w"
  let ?a = "length (fingerprints w)" and ?m = "Suc (length (attrMaps w))"
  from cp fo have bd: "build env ?b ?w = (Inr r, w')" by (simp add: copy_eq)
  have bf: "b_file ?b = newFile" and bp: "fp ?b = Some ?a" and bm: "fileAttributes ?b = Some ?m"
    by (simp_all add: copyBuilder_def)
  have wm: "attrMaps ?w = attrMaps w @ [Map.empty, mapEntries w (FileAttributes old)]"
    using lm by (rule copyWorld_maps)
  have mr: "FileAttributes r = Some ?m"
    using build_Inr_fields[OF bd] bm by (cases "b_file ?b") auto
  from build_store[OF bd] bp bm
  have fw: "fingerprints w' = fingerprints w @ [fingerprints w ! a]"
    and fm: "mapsFrame (Some ?m) ?w w'"
    by (simp_all add: storeFrame_def)
  have lw: "length (attrMaps w') = Suc ?m" using fm wm by (simp add: mapsFrame_def)
  have old_m: "mapEntries w' (FileAttributes old) = mapEntries w (FileAttributes old)"
  proof (cases "FileAttributes old")
    case None then show ?thesis by (simp add: mapEntries_def)
  next
    case (Some m)
    with lm have "m < length (attrMaps w)" by (simp add: liveMap_def)
    with fm wm Some show ?thesis by (simp add: mapsFrame_def mapEntries_def nth_append)
  qed
  have ne_m: "FileAttributes r \<noteq> FileAttributes old"
    using lm mr by (cases "FileAttributes old") (auto simp: liveMap_def)
  have nil_m: "newFile = None \<longrightarrow>
      Fingerprint r = None \<and> mapEntries w' (FileAttributes r) = mapEntries w (FileAttributes old)"
  proof
    assume n: "newFile = None"
    with bf have nb: "b_file ?b = None" by simp
    from build_Inr_fields[OF bd] nb have "Fingerprint r = None" by simp
    moreover from build_store[OF bd] nb have "attrMaps w' = attrMaps ?w"
      by (simp add: storeFrame_def)
    then have "mapEntries w' (FileAttributes r) = mapEntries w (FileAttributes old)"
      by (simp add: mr mapEntries_def wm nth_append)
    ultimately show "Fingerprint r = None \<and>
        mapEntries w' (FileAttributes r) = mapEntries w (FileAttributes old)" by simp
  qed
  have new_m: "\<forall>k. k \<notin> {logFileName, logFilePath, logFileNameResolved, logFilePathResolved} \<longrightarrow>
        mapEntries w' (FileAttributes r) k = mapEntries w (FileAttributes old) k"
  proof (cases newFile)
    case None
    with nil_m show ?thesis by simp
  next
    case (Some fl)
    with bf have bs: "b_file ?b = Some fl" by simp
    have "?m < length (attrMaps ?w)" by (simp add: wm)
    from build_Inr_attrs[OF bs bd bm this] obtain absPath where
      "attrMaps w' = (attrMaps ?w)[?m := attrSteps env (fac_readerConfig (factory ?b)) (Name fl)
          absPath (attrMaps ?w ! ?m)]" by blast
    then have "attrMaps w' ! ?m = attrSteps env (fac_readerConfig (factory ?b)) (Name fl)
          absPath (mapEntries w (FileAttributes old))"
      by (simp add: wm nth_append)
    then show ?thesis by (simp add: mr mapEntries_def attrSteps_other)
  qed
  have 1: "newFile \<noteq> None \<longrightarrow>
        Fingerprint old \<noteq> None \<and> Fingerprint r \<noteq> None \<and> Fingerprint r \<noteq> Fingerprint old \<and>
        liveFingerprint w' (Fingerprint r) \<and>
        fingerprintBytes w' (Fingerprint r) = fingerprintBytes w (Fingerprint old)"
  proof
    assume "newFile \<noteq> None"
    then obtain fl where "b_file ?b = Some fl" using bf by auto
    then have fr: "Fingerprint r = Some ?a" using bd bp by (rule build_Inr_supplied_fingerprint)
    with fo la fw show "Fingerprint old \<noteq> None \<and> Fingerprint r \<noteq> None \<and>
        Fingerprint r \<noteq> Fingerprint old \<and> liveFingerprint w' (Fingerprint r) \<and>
        fingerprintBytes w' (Fingerprint r) = fingerprintBytes w (Fingerprint old)"
      by (simp add: liveFingerprint_def fingerprintBytes_def nth_append)
  qed
  have fr2: "Fingerprint r = None \<or> Fingerprint r = Some ?a"
  proof (cases "b_file ?b")
    case None
    with build_Inr_fields[OF bd] show ?thesis by simp
  next
    case (Some fl)
    then have "Fingerprint r = Some ?a" using bd bp by (rule build_Inr_supplied_fingerprint)
    then show ?thesis by simp
  qed
  have 2: "fingerprintBytes w' (Fingerprint old) = fingerprintBytes w (Fingerprint old)"
    using fo la fw by (simp add: fingerprintBytes_def nth_append)
  have 3: "FileAttributes r \<noteq> None \<and> liveMap w' (FileAttributes r)"
    using mr lw by (simp add: liveMap_def)
  have 4: "(\<forall>bs. fingerprintBytes (writeFingerprint (Fingerprint r) bs w') (Fingerprint old)
        = fingerprintBytes w' (Fingerprint old)) \<and>
     (\<forall>bs. fingerprintBytes (writeFingerprint (Fingerprint old) bs w') (Fingerprint r)
        = fingerprintBytes w' (Fingerprint r))"
    using fo fr2 la by (auto simp: fingerprintBytes_def writeFingerprint_def)
  have 5: "(\<forall>k v. mapEntries (snd (mapAssign (FileAttributes r) k v w')) (FileAttributes old)
        = mapEntries w' (FileAttributes old)) \<and>
     (\<forall>k. mapEntries (mapDelete (FileAttributes r) k w') (FileAttributes old)
        = mapEntries w' (FileAttributes old)) \<and>
     (\<forall>k v. mapEntries (snd (mapAssign (FileAttributes old) k v w')) (FileAttributes r)
        = mapEntries w' (FileAttributes r)) \<and>
     (\<forall>k. mapEntries (mapDelete (FileAttributes old) k w') (FileAttributes r)
        = mapEntries w' (FileAttributes r))"
    using ne_m mr
    by (cases "FileAttributes old") (auto simp: mapEntries_def mapAssign_def mapDelete_def)
  from 1 2 3 4 5 old_m new_m ne_m nil_m show ?thesis by blast
qed

text \<open>
  A copy onto a file of 10 bytes; afterwards the successor's fingerprint is overwritten
  and an attribute is added to its mapping.
\<close>

theorem copy_shares_nothing_witness:
  "liveFingerprint ex_world (Fingerprint ex_old) \<and> liveMap ex_world (FileAttributes ex_old) \<and>
   \<not> isl (fst (copy ex_env ex_factory ex_old (Some ex_file) ex_world)) \<and>
   Fingerprint (projr (fst (copy ex_env ex_factory ex_old (Some ex_file) ex_world)))
     \<noteq> Fingerprint ex_old \<and>
   fingerprintBytes (snd (copy ex_env ex_factory ex_old (Some ex_file) ex_world))
     (Fingerprint (projr (fst (copy ex_env ex_factory ex_old (Some ex_file) ex_world))))
     = [65, 10, 66, 10] \<and>
   fingerprintBytes
     (writeFingerprint
        (Fingerprint (projr (fst (copy ex_env ex_factory ex_old (Some ex_file) ex_world))))
        [1, 2, 3] (snd (copy ex_env ex_factory ex_old (Some ex_file) ex_world)))
     (Fingerprint ex_old) = [65, 10, 66, 10] \<and>
   mapEntries
     (snd (mapAssign
        (FileAttributes (projr (fst (copy ex_env ex_factory ex_old (Some ex_file) ex_world))))
        ''header.key'' (AnyString ''value'')
        (snd (copy ex_env ex_factory ex_old (Some ex_file) ex_world))))
     (FileAttributes ex_old) ''header.key'' = None"
proof -
  let ?x = "copy ex_env ex_factory ex_old (Some ex_file) ex_world"
  have lf: "liveFingerprint ex_world (Fingerprint ex_old)"
    by (simp add: liveFingerprint_def ex_old_def ex_world_def)
  have lm: "liveMap ex_world (FileAttributes ex_old)"
    by (simp add: liveMap_def ex_old_def ex_world_def)
  have n: "\<not> isl (fst ?x)" by (simp add: model_defs example_defs)
  have v: "fingerprintBytes ex_world (Fingerprint ex_old) = [65, 10, 66, 10]"
    "mapEntries ex_world (FileAttributes ex_old) ''header.key'' = None"
    by (simp_all add: fingerprintBytes_def mapEntries_def ex_old_def ex_world_def
          logFileName_def logFilePath_def)
  note t = copy_shares_nothing[OF run_collapse[OF n] lf lm]
  from t have 1: "Fingerprint (projr (fst ?x)) \<noteq> Fingerprint ex_old" by simp
  from t v have 2: "fingerprintBytes (snd ?x) (Fingerprint (projr (fst ?x))) = [65, 10, 66, 10]"
    by simp
  from t have "fingerprintBytes (writeFingerprint (Fingerprint (projr (fst ?x))) [1, 2, 3] (snd ?x))
     (Fingerprint ex_old) = fingerprintBytes ex_world (Fingerprint ex_old)" by simp
  with v have 3: "fingerprintBytes (writeFingerprint (Fingerprint (projr (fst ?x))) [1, 2, 3] (snd ?x))
     (Fingerprint ex_old) = [65, 10, 66, 10]" by simp
  from t have "mapEntries (snd (mapAssign (FileAttributes (projr (fst ?x))) ''header.key''
      (AnyString ''value'') (snd ?x))) (FileAttributes ex_old)
     = mapEntries ex_world (FileAttributes ex_old)" by simp
  with v have 4: "mapEntries (snd (mapAssign (FileAttributes (projr (fst ?x))) ''header.key''
      (AnyString ''value'') (snd ?x))) (FileAttributes ex_old) ''header.key'' = None" by simp
  from lf lm n 1 2 3 4 show ?thesis by blast
qed

text \<open>
  The claim fails here: \<open>copy\<close> without a file returns a Reader, and that Reader has
  no fingerprint although \<open>old\<close> has one.
\<close>

theorem copy_onto_nil_file_has_no_fingerprint:
  "\<not> isl (fst (copy ex_env ex_factory ex_old None ex_world)) \<and>
   Fingerprint ex_old = Some 0 \<and>
   Fingerprint (projr (fst (copy ex_env ex_factory ex_old None ex_world))) = None"
  by (simp add: model_defs example_defs)

end
